theory Spec2Isabelle
  imports Main
begin

section \<open>The GA4 relational pipeline\<close>

text \<open>
  The file \<^verbatim>\<open>ga4_relational_pipeline.py\<close> is a run-to-completion batch job over one
  SQLite file, with a single writer. The model keeps
  the source's functions and names. Exceptions are values of \<open>error\<close>; a function
  that can raise returns \<open>error + 'a\<close> with \<open>Inl\<close> for the exception. Python
  strings are \<open>string\<close>, one \<open>char\<close> per code point below 256; on these the
  regular-expression class of the digits is exactly \<open>0\<close>..\<open>9\<close> and SQLite's binary
  collation is the order of the code points.
\<close>

datatype error =
  KeyError | IndexError | ValueError | OverflowError
  | OperationalError | IntegrityError | OSError | ApiError | RetryError

subsection \<open>Calendar dates: \<open>datetime.date\<close>\<close>

text \<open>
  A \<open>datetime.date\<close> holds year, month and day; the library compares dates
  field by field and adds a \<open>timedelta\<close> through the proleptic Gregorian ordinal
  (day 1 is 0001-01-01, the last day is 9999-12-31), raising \<open>OverflowError\<close> when the
  result leaves that range.
\<close>

datatype date = Date (year: nat) (month: nat) (day: nat)

definition is_leap :: "nat \<Rightarrow> bool" where
  "is_leap y = (y mod 4 = 0 \<and> (y mod 100 \<noteq> 0 \<or> y mod 400 = 0))"

definition DAYS_IN_MONTH :: "nat list" where
  "DAYS_IN_MONTH = [0, 31, 28, 31, 30, 31, 30, 31, 31, 30, 31, 30, 31]"

definition DAYS_BEFORE_MONTH :: "nat list" where
  "DAYS_BEFORE_MONTH = [0, 0, 31, 59, 90, 120, 151, 181, 212, 243, 273, 304, 334]"

definition days_in_month :: "nat \<Rightarrow> nat \<Rightarrow> nat" where
  "days_in_month y m = (if m = 2 \<and> is_leap y then 29 else DAYS_IN_MONTH ! m)"

definition days_before_year :: "nat \<Rightarrow> nat" where
  "days_before_year y =
     (let p = y - 1 in p * 365 + p div 4 - p div 100 + p div 400)"

definition days_before_month :: "nat \<Rightarrow> nat \<Rightarrow> nat" where
  "days_before_month y m =
     DAYS_BEFORE_MONTH ! m + (if m > 2 \<and> is_leap y then 1 else 0)"

definition MAXORDINAL :: int where
  "MAXORDINAL = 3652059"

definition toordinal :: "date \<Rightarrow> int" where
  "toordinal d =
     int (days_before_year (year d) + days_before_month (year d) (month d) + day d)"

text \<open>\<open>fromordinal\<close> is only called with \<open>1 \<le> n \<le> MAXORDINAL\<close>.\<close>

definition fromordinal :: "int \<Rightarrow> date" where
  "fromordinal n0 =
     (let n = nat (n0 - 1);
          n400 = n div 146097; n = n mod 146097;
          n100 = n div 36524; n = n mod 36524;
          n4 = n div 1461; n = n mod 1461;
          n1 = n div 365; n = n mod 365;
          y = n400 * 400 + 1 + n100 * 100 + n4 * 4 + n1
      in if n1 = 4 \<or> n100 = 4 then Date (y - 1) 12 31
         else
           let leapyear = (n1 = 3 \<and> (n4 \<noteq> 24 \<or> n100 = 3));
               m = (n + 50) div 32;
               preceding = DAYS_BEFORE_MONTH ! m + (if m > 2 \<and> leapyear then 1 else 0)
           in if preceding > n
              then let m' = m - 1;
                       preceding' = preceding -
                         (DAYS_IN_MONTH ! m' + (if m' = 2 \<and> leapyear then 1 else 0))
                   in Date y m' (n - preceding' + 1)
              else Date y m (n - preceding + 1))"

text \<open>\<open>d + timedelta(days=k)\<close>; subtraction is the addition of \<open>- k\<close>.\<close>

definition date_add :: "date \<Rightarrow> int \<Rightarrow> error + date" where
  "date_add d k =
     (let o' = toordinal d + k
      in if 0 < o' \<and> o' \<le> MAXORDINAL then Inr (fromordinal o') else Inl OverflowError)"

text \<open>\<open>a > b\<close> on dates: the comparison of the triples (year, month, day).\<close>

definition date_gt :: "date \<Rightarrow> date \<Rightarrow> bool" where
  "date_gt a b =
     (year a > year b \<or> (year a = year b \<and>
        (month a > month b \<or> (month a = month b \<and> day a > day b))))"

text \<open>
  The constructor \<open>date(y, m, d)\<close> checks its fields and raises \<open>ValueError\<close>.
\<close>

definition make_date :: "nat \<Rightarrow> nat \<Rightarrow> nat \<Rightarrow> error + date" where
  "make_date y m d =
     (if 1 \<le> y \<and> y \<le> 9999 \<and> 1 \<le> m \<and> m \<le> 12 \<and> 1 \<le> d \<and> d \<le> days_in_month y m
      then Inr (Date y m d) else Inl ValueError)"

subsection \<open>Parsing and printing dates: \<open>strptime\<close>, \<open>strftime\<close>\<close>

text \<open>
  \<open>strptime\<close> turns the format into a regular expression, matches it at the start of
  the string with backtracking, rejects a match that leaves characters over, and builds
  the date. The directives are
  \<^verbatim>\<open>%Y = \d\d\d\d\<close>, \<^verbatim>\<open>%m = 1[0-2]|0[1-9]|[1-9]\<close> and
  \<^verbatim>\<open>%d = 3[0-1]|[1-2]\d|0[1-9]|[1-9]| [1-9]\<close>.
  Each piece below lists the ways it can match a prefix, in the order the alternatives
  are tried, with the rest of the string; the first element of the combined list is the
  match the backtracking search finds.
\<close>

definition is_digit :: "char \<Rightarrow> bool" where
  "is_digit c = (48 \<le> (of_char c :: nat) \<and> (of_char c :: nat) \<le> 57)"

definition digit_val :: "char \<Rightarrow> nat" where
  "digit_val c = of_char c - 48"

definition in_range :: "char \<Rightarrow> char \<Rightarrow> char \<Rightarrow> bool" where
  "in_range lo hi c = ((of_char lo :: nat) \<le> of_char c \<and> (of_char c :: nat) \<le> of_char hi)"

fun re_Y :: "string \<Rightarrow> (nat \<times> string) list" where
  "re_Y (a # b # c # d # rest) =
     (if is_digit a \<and> is_digit b \<and> is_digit c \<and> is_digit d
      then [(1000 * digit_val a + 100 * digit_val b + 10 * digit_val c + digit_val d, rest)]
      else [])"
| "re_Y _ = []"

text \<open>A two-character alternative \<open>[lo1-hi1][lo2-hi2]\<close> and a one-character one.\<close>

fun alt2 :: "char \<Rightarrow> char \<Rightarrow> char \<Rightarrow> char \<Rightarrow> string \<Rightarrow> (nat \<times> string) list" where
  "alt2 lo1 hi1 lo2 hi2 (a # b # rest) =
     (if in_range lo1 hi1 a \<and> in_range lo2 hi2 b
      then [(10 * digit_val a + digit_val b, rest)] else [])"
| "alt2 lo1 hi1 lo2 hi2 _ = []"

fun alt1 :: "char \<Rightarrow> char \<Rightarrow> string \<Rightarrow> (nat \<times> string) list" where
  "alt1 lo hi (a # rest) = (if in_range lo hi a then [(digit_val a, rest)] else [])"
| "alt1 lo hi _ = []"

text \<open>The last alternative of \<open>%d\<close>: a space and a digit 1..9.\<close>

fun alt_space :: "string \<Rightarrow> (nat \<times> string) list" where
  "alt_space (a # b # rest) =
     (if a = CHR '' '' \<and> in_range CHR ''1'' CHR ''9'' b then [(digit_val b, rest)] else [])"
| "alt_space _ = []"

definition re_m :: "string \<Rightarrow> (nat \<times> string) list" where
  "re_m s = alt2 CHR ''1'' CHR ''1'' CHR ''0'' CHR ''2'' s
          @ alt2 CHR ''0'' CHR ''0'' CHR ''1'' CHR ''9'' s
          @ alt1 CHR ''1'' CHR ''9'' s"

definition re_d :: "string \<Rightarrow> (nat \<times> string) list" where
  "re_d s = alt2 CHR ''3'' CHR ''3'' CHR ''0'' CHR ''1'' s
          @ alt2 CHR ''1'' CHR ''2'' CHR ''0'' CHR ''9'' s
          @ alt2 CHR ''0'' CHR ''0'' CHR ''1'' CHR ''9'' s
          @ alt1 CHR ''1'' CHR ''9'' s
          @ alt_space s"

fun re_hyphen :: "string \<Rightarrow> string list" where
  "re_hyphen (a # rest) = (if a = CHR ''-'' then [rest] else [])"
| "re_hyphen [] = []"

text \<open>All matches of \<open>%Y-%m-%d\<close> and of \<open>%Y%m%d\<close>, in search order.\<close>

definition matches_hyphenated :: "string \<Rightarrow> ((nat \<times> nat \<times> nat) \<times> string) list" where
  "matches_hyphenated s =
     concat (map (\<lambda>(y, r1).
       concat (map (\<lambda>r2.
         concat (map (\<lambda>(m, r3).
           concat (map (\<lambda>r4.
             map (\<lambda>(d, r5). ((y, m, d), r5)) (re_d r4))
           (re_hyphen r3)))
         (re_m r2)))
       (re_hyphen r1)))
     (re_Y s))"

definition matches_compact :: "string \<Rightarrow> ((nat \<times> nat \<times> nat) \<times> string) list" where
  "matches_compact s =
     concat (map (\<lambda>(y, r1).
       concat (map (\<lambda>(m, r2).
         map (\<lambda>(d, r3). ((y, m, d), r3)) (re_d r2))
       (re_m r1)))
     (re_Y s))"

text \<open>
  The first match decides: no match or unconverted data left over is a
  \<open>ValueError\<close>, and so is a field the \<open>date\<close> constructor rejects.
\<close>

definition finish_parse :: "((nat \<times> nat \<times> nat) \<times> string) list \<Rightarrow> error + date" where
  "finish_parse ms =
     (case ms of
        [] \<Rightarrow> Inl ValueError
      | ((y, m, d), rest) # _ \<Rightarrow> (if rest \<noteq> [] then Inl ValueError else make_date y m d))"

definition strptime_hyphenated :: "string \<Rightarrow> error + date" where
  "strptime_hyphenated s = finish_parse (matches_hyphenated s)"

definition strptime_compact :: "string \<Rightarrow> error + date" where
  "strptime_compact s = finish_parse (matches_compact s)"

text \<open>
  \<open>strftime('%Y-%m-%d')\<close>: the fields in decimal, zero-padded to 4, 2 and 2 digits
  (the C library pads the year on every platform from the year 1000 on).
\<close>

definition digit_char :: "nat \<Rightarrow> char" where
  "digit_char n = ''0123456789'' ! (n mod 10)"

definition pad2 :: "nat \<Rightarrow> string" where
  "pad2 n = [digit_char (n div 10), digit_char n]"

definition pad4 :: "nat \<Rightarrow> string" where
  "pad4 n = [digit_char (n div 1000), digit_char (n div 100), digit_char (n div 10), digit_char n]"

definition strftime :: "date \<Rightarrow> string" where
  "strftime d = pad4 (year d) @ ''-'' @ pad2 (month d) @ ''-'' @ pad2 (day d)"

subsection \<open>Exceptions and state: the shape of every stateful function\<close>

text \<open>
  A function that reads or writes the process state is a \<open>prog\<close>: it takes the
  state and returns its result or the exception it raised, with the state it left.
\<close>

type_synonym ('a, 's) prog = "'s \<Rightarrow> (error + 'a) \<times> 's"

definition ret :: "'a \<Rightarrow> ('a, 's) prog" where
  "ret x = (\<lambda>s. (Inr x, s))"

definition raise :: "error \<Rightarrow> ('a, 's) prog" where
  "raise e = (\<lambda>s. (Inl e, s))"

definition and_then :: "('a, 's) prog \<Rightarrow> ('a \<Rightarrow> ('b, 's) prog) \<Rightarrow> ('b, 's) prog" where
  "and_then m f = (\<lambda>s. case m s of (Inl e, s') \<Rightarrow> (Inl e, s') | (Inr x, s') \<Rightarrow> f x s')"

text \<open>\<open>try: m except Exception as e: h e\<close>.\<close>

definition catch :: "('a, 's) prog \<Rightarrow> (error \<Rightarrow> ('a, 's) prog) \<Rightarrow> ('a, 's) prog" where
  "catch m h = (\<lambda>s. case m s of (Inl e, s') \<Rightarrow> h e s' | (Inr x, s') \<Rightarrow> (Inr x, s'))"

definition gets :: "('s \<Rightarrow> 'a) \<Rightarrow> ('a, 's) prog" where
  "gets f = (\<lambda>s. (Inr (f s), s))"

definition modify :: "('s \<Rightarrow> 's) \<Rightarrow> (unit, 's) prog" where
  "modify f = (\<lambda>s. (Inr (), f s))"

definition lift :: "error + 'a \<Rightarrow> ('a, 's) prog" where
  "lift r = (\<lambda>s. (r, s))"

subsection \<open>Records, fact rows and the state of a run\<close>

text \<open>
  The normalizer's entries are dictionaries with the key \<open>date\<close> and the keys of one
  category. Python floats are values of a type \<open>'f\<close> that the model never inspects.
\<close>

datatype 'f entry =
    UserEntry (date: string) (users: int) (sessions: int) (engagement_rate: 'f)
      (conversions: int) (average_session_duration: 'f)
  | ContentEntry (date: string) (page_title: string) (page_views: int) (sessions: int)
      (engagement_rate: 'f) (session_duration: 'f)
  | SiteEntry (date: string) (search_Term: string) (clicks: int) (impressions: int)

text \<open>
  A row of \<open>user_interaction\<close>, \<open>content_metrics\<close> or \<open>site_data\<close>: the
  \<open>date_id\<close> and the other columns in the order of the \<open>INSERT\<close>. The tables keep
  their rows in insertion order; the automatic key of a fact row is never read by the
  program and is left out.
\<close>

datatype 'f fact =
    UserRow (date_id: nat) int int 'f int 'f
  | ContentRow (date_id: nat) string int int 'f 'f
  | SiteRow (date_id: nat) string int int

text \<open>The dictionary \<open>data\<close>, with its keys in insertion order.\<close>

record 'f data =
  df_users :: "'f entry list"
  df_content :: "'f entry list"
  df_site :: "'f entry list"

datatype log_entry =
    Info_Starting
  | Info_Database_initialized
  | Error_Date_ID_lookup_failed error
  | Error_GA4_data_fetch_failed error
  | Info_Successfully_saved nat
  | Error_Data_save_failed error
  | Error_Date_retrieval_failed error
  | Info_No_new_data_to_fetch
  | Info_Fetching_data string string
  | Info_No_data_returned
  | Info_Pipeline_completed
  | Error_Pipeline_failed error

text \<open>
  The state of a run. \<open>dates\<close> is the dimension table with its rows
  \<open>(date_id, date)\<close> and \<open>date_seq\<close> the \<open>AUTOINCREMENT\<close> counter of that table;
  the three fact tables and the exported files hold what has been committed and
  written; \<open>log\<close> is the log stream, oldest entry first; \<open>api_calls\<close> counts the
  attempts made against the reporting API.

  \<open>faults\<close> is the environment's part in storage and file operations: each SQL
  statement, each commit and each file export takes the next element and fails when it
  is \<open>True\<close>; an exhausted list means no more failures. Opening and closing a
  connection and rolling back are not failure points: the database file is the one
  \<open>init_db\<close> has just opened.
\<close>

record 'f world =
  dates :: "(nat \<times> string) list"
  date_seq :: nat
  user_interaction :: "'f fact list"
  content_metrics :: "'f fact list"
  site_data :: "'f fact list"
  csv_files :: "(string \<times> 'f entry list) list"
  log :: "log_entry list"
  api_calls :: nat
  faults :: "bool list"

definition fallible :: "error \<Rightarrow> (unit, 'f world) prog" where
  "fallible e = (\<lambda>w. case faults w of
       [] \<Rightarrow> (Inr (), w)
     | b # bs \<Rightarrow> (if b then Inl e else Inr (), w\<lparr>faults := bs\<rparr>))"

text \<open>\<open>cursor.execute\<close> and \<open>conn.commit\<close>.\<close>

definition execute :: "(unit, 'f world) prog" where
  "execute = fallible OperationalError"

definition commit :: "(unit, 'f world) prog" where
  "commit = fallible OperationalError"

definition logger :: "log_entry \<Rightarrow> (unit, 'f world) prog" where
  "logger x = modify (\<lambda>w. w\<lparr>log := log w @ [x]\<rparr>)"

subsection \<open>\<open>init_db\<close>\<close>

text \<open>
  Four \<open>CREATE TABLE IF NOT EXISTS\<close> statements and a commit. The tables of the model
  exist from the start (empty), so a successful \<open>init_db\<close> changes no table.
\<close>

definition init_db :: "(unit, 'f world) prog" where
  "init_db =
     and_then execute (\<lambda>_.
     and_then execute (\<lambda>_.
     and_then execute (\<lambda>_.
     and_then execute (\<lambda>_.
     and_then commit (\<lambda>_.
     logger Info_Database_initialized)))))"

subsection \<open>\<open>get_or_create_date_id\<close>\<close>

text \<open>\<open>SELECT date_id FROM dates WHERE date = ?\<close> and \<open>fetchone\<close>.\<close>

definition select_date_id :: "string \<Rightarrow> (nat \<times> string) list \<Rightarrow> nat option" where
  "select_date_id date_str ds = map_option fst (find (\<lambda>r. snd r = date_str) ds)"

text \<open>
  The key \<open>AUTOINCREMENT\<close> gives a new row: one more than the largest key the table
  has ever held.
\<close>

definition next_date_id :: "'f world \<Rightarrow> nat" where
  "next_date_id w = Suc (max (date_seq w) (fold max (map fst (dates w)) 0))"

text \<open>The column \<open>date\<close> is \<open>UNIQUE\<close>: inserting a present value fails.\<close>

definition check_unique :: "string \<Rightarrow> (unit, 'f world) prog" where
  "check_unique date_str =
     (\<lambda>w. if date_str \<in> snd ` set (dates w) then (Inl IntegrityError, w) else (Inr (), w))"

text \<open>
  The \<open>else\<close> branch: \<open>INSERT INTO dates (date) VALUES (?)\<close>, the commit, and
  \<open>cursor.lastrowid\<close>. The row reaches the table with the commit.
\<close>

definition insert_date :: "string \<Rightarrow> (nat, 'f world) prog" where
  "insert_date date_str =
     and_then execute (\<lambda>_.
     and_then (check_unique date_str) (\<lambda>_.
     and_then commit (\<lambda>_.
     and_then (gets next_date_id) (\<lambda>lastrowid.
     and_then (modify (\<lambda>w. w\<lparr>dates := dates w @ [(lastrowid, date_str)],
                               date_seq := lastrowid\<rparr>)) (\<lambda>_.
     ret lastrowid)))))"

text \<open>The body of the \<open>try\<close>: look the date up, insert it when it is not there.\<close>

definition get_or_create_date_id_try :: "string \<Rightarrow> (nat, 'f world) prog" where
  "get_or_create_date_id_try date_str =
     and_then execute (\<lambda>_.
     and_then (gets dates) (\<lambda>ds.
     case select_date_id date_str ds of
       Some result \<Rightarrow> ret result
     | None \<Rightarrow> insert_date date_str))"

text \<open>
  The function has its own connection and commits the new row itself. A failure is
  logged and raised again; closing the connection drops an insert that was not committed.
\<close>

definition get_or_create_date_id :: "string \<Rightarrow> (nat, 'f world) prog" where
  "get_or_create_date_id date_str =
     catch (get_or_create_date_id_try date_str)
       (\<lambda>e. and_then (logger (Error_Date_ID_lookup_failed e)) (\<lambda>_. raise e))"

subsection \<open>\<open>get_last_date\<close>\<close>

text \<open>
  \<open>SELECT MAX(date) FROM dates\<close>: the column is \<open>TEXT\<close>, so the maximum is the
  greatest string in the binary collation, \<open>NULL\<close> for the empty table.
\<close>

fun str_less :: "string \<Rightarrow> string \<Rightarrow> bool" where
  "str_less [] [] = False"
| "str_less [] (y # ys) = True"
| "str_less (x # xs) [] = False"
| "str_less (x # xs) (y # ys) =
     ((of_char x :: nat) < of_char y \<or> (x = y \<and> str_less xs ys))"

definition sql_max :: "string list \<Rightarrow> string option" where
  "sql_max xs = fold (\<lambda>s acc. case acc of None \<Rightarrow> Some s
                               | Some a \<Rightarrow> if str_less a s then Some s else Some a) xs None"

text \<open>
  The canonical format first and, on \<open>ValueError\<close>, the old format; a
  \<open>ValueError\<close> of the second attempt leaves the inner \<open>try\<close>.
\<close>

definition parse_last_date :: "string \<Rightarrow> error + date" where
  "parse_last_date last_date =
     (case strptime_hyphenated last_date of
        Inr d \<Rightarrow> Inr d
      | Inl e \<Rightarrow> (if e = ValueError then strptime_compact last_date else Inl e))"

text \<open>The body of the \<open>try\<close>; \<open>if last_date:\<close> is false for \<open>NULL\<close> and for the empty string.\<close>

definition get_last_date_try :: "(date option, 'f world) prog" where
  "get_last_date_try =
     and_then execute (\<lambda>_.
     and_then (gets dates) (\<lambda>ds.
     (case sql_max (map snd ds) of
       None \<Rightarrow> ret None
     | Some last_date \<Rightarrow>
         (if last_date \<noteq> []
          then and_then (lift (parse_last_date last_date)) (\<lambda>d. ret (Some d))
          else ret None))))"

definition get_last_date :: "(date option, 'f world) prog" where
  "get_last_date =
     catch get_last_date_try
       (\<lambda>e. and_then (logger (Error_Date_retrieval_failed e)) (\<lambda>_. ret None))"

subsection \<open>\<open>fetch_ga4_data\<close> and \<open>process_response\<close>\<close>

text \<open>
  A row of a report: its dimension values and its metric values, all strings. The
  reporting API and Python's \<open>int\<close> and \<open>float\<close> are not part of the repository and
  are taken from the environment of a run: \<open>api start end k\<close> is what the three
  \<open>run_report\<close> calls of the \<open>k\<close>-th attempt of the run return (or the exception one
  of them raises); \<open>int_of\<close> and \<open>float_of\<close> give \<open>None\<close> where Python raises
  \<open>ValueError\<close>; \<open>set_order\<close> is the order in which a Python \<open>set\<close> of strings
  is iterated; \<open>today\<close> is \<open>datetime.now().date()\<close>.
\<close>

record raw_row =
  dimension_values :: "string list"
  metric_values :: "string list"

record 'f env =
  today :: date
  api :: "string \<Rightarrow> string \<Rightarrow> nat \<Rightarrow> error + (raw_row list \<times> raw_row list \<times> raw_row list)"
  int_of :: "string \<Rightarrow> int option"
  float_of :: "string \<Rightarrow> 'f option"
  set_order :: "string list \<Rightarrow> string list"

text \<open>
  \<open>process_response\<close> is a local function, called with the literals \<open>'user'\<close>,
  \<open>'content'\<close> and \<open>'site'\<close> only.
\<close>

datatype rtype = User | Content | Site

definition on_ok :: "error + 'a \<Rightarrow> ('a \<Rightarrow> error + 'b) \<Rightarrow> error + 'b" where
  "on_ok r f = (case r of Inl e \<Rightarrow> Inl e | Inr x \<Rightarrow> f x)"

definition index :: "'a list \<Rightarrow> nat \<Rightarrow> error + 'a" where
  "index xs i = (if i < length xs then Inr (xs ! i) else Inl IndexError)"

definition convert :: "(string \<Rightarrow> 'a option) \<Rightarrow> string \<Rightarrow> error + 'a" where
  "convert f s = (case f s of None \<Rightarrow> Inl ValueError | Some v \<Rightarrow> Inr v)"

text \<open>
  \<open>f"{ga4_date[:4]}-{ga4_date[4:6]}-{ga4_date[6:8]}"\<close>: slices of a string never
  raise; a slice beyond the end is empty.
\<close>

definition formatted_date :: "string \<Rightarrow> string" where
  "formatted_date ga4_date =
     take 4 ga4_date @ ''-'' @ take 2 (drop 4 ga4_date) @ ''-'' @ take 2 (drop 6 ga4_date)"

text \<open>The body of the loop of \<open>process_response\<close>: one row, one entry.\<close>

definition process_row ::
  "(string \<Rightarrow> int option) \<Rightarrow> (string \<Rightarrow> 'f option) \<Rightarrow> rtype \<Rightarrow> raw_row \<Rightarrow> error + 'f entry" where
  "process_row to_int to_float type row =
     on_ok (index (dimension_values row) 0) (\<lambda>ga4_date.
     let d = formatted_date ga4_date; mv = metric_values row in
     case type of
       User \<Rightarrow>
         on_ok (on_ok (index mv 0) (convert to_int)) (\<lambda>v0.
         on_ok (on_ok (index mv 1) (convert to_int)) (\<lambda>v1.
         on_ok (on_ok (index mv 2) (convert to_float)) (\<lambda>v2.
         on_ok (on_ok (index mv 3) (convert to_int)) (\<lambda>v3.
         on_ok (on_ok (index mv 4) (convert to_float)) (\<lambda>v4.
         Inr (UserEntry d v0 v1 v2 v3 v4))))))
     | Content \<Rightarrow>
         on_ok (index (dimension_values row) 1) (\<lambda>title.
         on_ok (on_ok (index mv 0) (convert to_int)) (\<lambda>v0.
         on_ok (on_ok (index mv 1) (convert to_int)) (\<lambda>v1.
         on_ok (on_ok (index mv 2) (convert to_float)) (\<lambda>v2.
         on_ok (on_ok (index mv 3) (convert to_float)) (\<lambda>v3.
         Inr (ContentEntry d title v0 v1 v2 v3))))))
     | Site \<Rightarrow>
         on_ok (index (dimension_values row) 1) (\<lambda>term.
         on_ok (on_ok (index mv 0) (convert to_int)) (\<lambda>v0.
         on_ok (on_ok (index mv 1) (convert to_int)) (\<lambda>v1.
         Inr (SiteEntry d term v0 v1)))))"

fun process_response ::
  "(string \<Rightarrow> int option) \<Rightarrow> (string \<Rightarrow> 'f option) \<Rightarrow> rtype \<Rightarrow> raw_row list
     \<Rightarrow> error + 'f entry list" where
  "process_response to_int to_float type [] = Inr []"
| "process_response to_int to_float type (row # rows) =
     on_ok (process_row to_int to_float type row) (\<lambda>entry.
     on_ok (process_response to_int to_float type rows) (\<lambda>data.
     Inr (entry # data)))"

text \<open>
  What the body of \<open>fetch_ga4_data\<close> computes at the \<open>k\<close>-th attempt of the run:
  the three reports, then the three normalizations.
\<close>

definition report :: "'f env \<Rightarrow> string \<Rightarrow> string \<Rightarrow> nat \<Rightarrow> error + 'f data" where
  "report env start_date end_date k =
     on_ok (api env start_date end_date k) (\<lambda>(user_response, content_response, site_response).
     on_ok (process_response (int_of env) (float_of env) User user_response) (\<lambda>u.
     on_ok (process_response (int_of env) (float_of env) Content content_response) (\<lambda>c.
     on_ok (process_response (int_of env) (float_of env) Site site_response) (\<lambda>s.
     Inr \<lparr>df_users = u, df_content = c, df_site = s\<rparr>))))"

text \<open>One execution of the body: an exception is logged and raised again.\<close>

definition fetch_attempt :: "'f env \<Rightarrow> string \<Rightarrow> string \<Rightarrow> ('f data, 'f world) prog" where
  "fetch_attempt env start_date end_date =
     and_then (modify (\<lambda>w. w\<lparr>api_calls := Suc (api_calls w)\<rparr>)) (\<lambda>_.
     and_then (gets api_calls) (\<lambda>k.
     catch (lift (report env start_date end_date k))
       (\<lambda>e. and_then (logger (Error_GA4_data_fetch_failed e)) (\<lambda>_. raise e))))"

text \<open>
  \<open>@retry(stop=stop_after_attempt(n))\<close>: the function is called again after an
  exception until it has been called \<open>n\<close> times; then \<open>RetryError\<close> is raised. The
  waiting between attempts is not modelled.
\<close>

fun retry :: "nat \<Rightarrow> ('a, 's) prog \<Rightarrow> ('a, 's) prog" where
  "retry 0 f = raise RetryError"
| "retry (Suc n) f = catch f (\<lambda>e. retry n f)"

definition fetch_ga4_data :: "'f env \<Rightarrow> string \<Rightarrow> string \<Rightarrow> ('f data, 'f world) prog" where
  "fetch_ga4_data env start_date end_date = retry 3 (fetch_attempt env start_date end_date)"

subsection \<open>\<open>save_data\<close>\<close>

text \<open>
  \<open>df['date']\<close>: a frame built from an empty list of entries has no columns, and the
  lookup raises \<open>KeyError\<close>; a frame built from entries has the column.
\<close>

definition column_date :: "'f entry list \<Rightarrow> error + string list" where
  "column_date df = (if df = [] then Inl KeyError else Inr (map date df))"

text \<open>
  The first loop: the dates of the three frames, in the order of \<open>data.values()\<close>,
  gathered in a set. The second loop iterates the set in the order \<open>set_order\<close> of the
  environment; no property below depends on that order.
\<close>

definition collect_dates :: "'f data \<Rightarrow> error + string list" where
  "collect_dates data =
     on_ok (column_date (df_users data)) (\<lambda>a.
     on_ok (column_date (df_content data)) (\<lambda>b.
     on_ok (column_date (df_site data)) (\<lambda>c.
     Inr (remdups (a @ b @ c)))))"

text \<open>The second loop: \<open>date_map[date_str] = get_or_create_date_id(date_str)\<close>.\<close>

fun create_date_entries ::
  "string list \<Rightarrow> (string \<rightharpoonup> nat) \<Rightarrow> (string \<rightharpoonup> nat, 'f world) prog" where
  "create_date_entries [] date_map = ret date_map"
| "create_date_entries (date_str # rest) date_map =
     and_then (get_or_create_date_id date_str) (\<lambda>date_id'.
     create_date_entries rest (date_map(date_str \<mapsto> date_id')))"

text \<open>The tuples of parameters of the three \<open>INSERT\<close> statements.\<close>

definition lookup :: "(string \<rightharpoonup> nat) \<Rightarrow> string \<Rightarrow> error + nat" where
  "lookup date_map k = (case date_map k of None \<Rightarrow> Inl KeyError | Some v \<Rightarrow> Inr v)"

definition user_row :: "(string \<rightharpoonup> nat) \<Rightarrow> 'f entry \<Rightarrow> error + 'f fact" where
  "user_row date_map row =
     on_ok (lookup date_map (date row)) (\<lambda>i.
     case row of UserEntry d u s r c a \<Rightarrow> Inr (UserRow i u s r c a) | _ \<Rightarrow> Inl KeyError)"

definition content_row :: "(string \<rightharpoonup> nat) \<Rightarrow> 'f entry \<Rightarrow> error + 'f fact" where
  "content_row date_map row =
     on_ok (lookup date_map (date row)) (\<lambda>i.
     case row of ContentEntry d t v s r u \<Rightarrow> Inr (ContentRow i t v s r u) | _ \<Rightarrow> Inl KeyError)"

definition site_row :: "(string \<rightharpoonup> nat) \<Rightarrow> 'f entry \<Rightarrow> error + 'f fact" where
  "site_row date_map row =
     on_ok (lookup date_map (date row)) (\<lambda>i.
     case row of SiteEntry d t c m \<Rightarrow> Inr (SiteRow i t c m) | _ \<Rightarrow> Inl KeyError)"

text \<open>
  An insertion loop. The rows inserted so far are \<open>pending\<close>: they belong to the open
  transaction of the connection of \<open>save_data\<close> and are in no table yet.
\<close>

fun insert_rows ::
  "('f entry \<Rightarrow> error + 'f fact) \<Rightarrow> 'f entry list \<Rightarrow> 'f fact list
     \<Rightarrow> ('f fact list, 'f world) prog" where
  "insert_rows params [] pending = ret pending"
| "insert_rows params (row # rest) pending =
     and_then (lift (params row)) (\<lambda>f.
     and_then execute (\<lambda>_.
     insert_rows params rest (pending @ [f])))"

text \<open>\<open>data[table].to_csv(...)\<close>: the file is written, or the export fails.\<close>

definition to_csv :: "string \<Rightarrow> 'f entry list \<Rightarrow> (unit, 'f world) prog" where
  "to_csv name df =
     and_then (fallible OSError) (\<lambda>_.
     modify (\<lambda>w. w\<lparr>csv_files := (name, df) # filter (\<lambda>p. fst p \<noteq> name) (csv_files w)\<rparr>))"

text \<open>
  The three insertion loops. Their result is the rows of the open transaction.
\<close>

definition insert_facts ::
  "(string \<rightharpoonup> nat) \<Rightarrow> 'f data \<Rightarrow> ('f fact list \<times> 'f fact list \<times> 'f fact list, 'f world) prog" where
  "insert_facts date_map data =
     and_then (insert_rows (user_row date_map) (df_users data) []) (\<lambda>pu.
     and_then (insert_rows (content_row date_map) (df_content data) []) (\<lambda>pc.
     and_then (insert_rows (site_row date_map) (df_site data) []) (\<lambda>ps.
     ret (pu, pc, ps))))"

text \<open>\<open>conn.commit()\<close>: the pending rows reach the tables, all of them or none.\<close>

definition commit_facts ::
  "'f fact list \<times> 'f fact list \<times> 'f fact list \<Rightarrow> (unit, 'f world) prog" where
  "commit_facts pending =
     (case pending of (pu, pc, ps) \<Rightarrow>
        and_then commit (\<lambda>_.
        modify (\<lambda>w. w\<lparr>user_interaction := user_interaction w @ pu,
                       content_metrics := content_metrics w @ pc,
                       site_data := site_data w @ ps\<rparr>)))"

text \<open>The export loop over \<open>['users', 'content', 'site']\<close>.\<close>

definition export_csv :: "'f data \<Rightarrow> (unit, 'f world) prog" where
  "export_csv data =
     and_then (to_csv ''users_metrics.csv'' (df_users data)) (\<lambda>_.
     and_then (to_csv ''content_metrics.csv'' (df_content data)) (\<lambda>_.
     to_csv ''site_metrics.csv'' (df_site data)))"

text \<open>The body of the \<open>try\<close> of \<open>save_data\<close>.\<close>

definition save_data_try :: "(string list \<Rightarrow> string list) \<Rightarrow> 'f data \<Rightarrow> (unit, 'f world) prog" where
  "save_data_try order data =
     and_then (lift (collect_dates data)) (\<lambda>all_dates.
     and_then (create_date_entries (order all_dates) Map.empty) (\<lambda>date_map.
     and_then (insert_facts date_map data) (\<lambda>pending.
     and_then (commit_facts pending) (\<lambda>_.
     and_then (logger (Info_Successfully_saved (length all_dates))) (\<lambda>_.
     export_csv data)))))"

text \<open>
  \<open>except Exception\<close>: roll back, log, raise again. The rollback drops the pending
  rows, which the state never held; after a commit there is nothing left to drop.
\<close>

definition save_data :: "(string list \<Rightarrow> string list) \<Rightarrow> 'f data \<Rightarrow> (unit, 'f world) prog" where
  "save_data order data =
     catch (save_data_try order data)
       (\<lambda>e. and_then (logger (Error_Data_save_failed e)) (\<lambda>_. raise e))"

subsection \<open>\<open>main\<close>\<close>

text \<open>
  The fetch window: from the day after the last date, or from 30 days before today, to
  today. The additions raise \<open>OverflowError\<close> outside the range of \<open>date\<close>.
\<close>

definition fetch_window :: "date option \<Rightarrow> date \<Rightarrow> error + (date \<times> date)" where
  "fetch_window last_date end_date =
     on_ok (case last_date of
              Some d \<Rightarrow> date_add d 1
            | None \<Rightarrow> date_add end_date (- 30)) (\<lambda>start_date.
     Inr (start_date, end_date))"

text \<open>
  What \<open>main\<close> does with the window: nothing when it is empty, else the fetch and,
  unless every frame is empty, the save.
\<close>

definition run_window :: "'f env \<Rightarrow> date \<Rightarrow> date \<Rightarrow> (unit, 'f world) prog" where
  "run_window env start_date end_date =
     (if date_gt start_date end_date then logger Info_No_new_data_to_fetch
      else
        and_then (logger (Info_Fetching_data (strftime start_date) (strftime end_date))) (\<lambda>_.
        and_then (fetch_ga4_data env (strftime start_date) (strftime end_date)) (\<lambda>data.
        if df_users data = [] \<and> df_content data = [] \<and> df_site data = []
        then logger Info_No_data_returned
        else
          and_then (save_data (set_order env) data) (\<lambda>_.
          logger Info_Pipeline_completed))))"

text \<open>The body of the \<open>try\<close> of \<open>main\<close>; returning from it is exit status 0.\<close>

definition main_try :: "'f env \<Rightarrow> (unit, 'f world) prog" where
  "main_try env =
     and_then get_last_date (\<lambda>last_date.
     and_then (lift (fetch_window last_date (today env))) (\<lambda>(start_date, end_date).
     run_window env start_date end_date))"

text \<open>
  \<open>main\<close> returns the exit status of the process and the state it leaves.
  \<open>init_db\<close> runs outside the \<open>try\<close>: its exception ends the process with status 1;
  an exception of the body is logged and \<open>exit(1)\<close> is called.
\<close>

definition startup :: "(unit, 'f world) prog" where
  "startup = and_then (logger Info_Starting) (\<lambda>_. init_db)"

definition main :: "'f env \<Rightarrow> 'f world \<Rightarrow> nat \<times> 'f world" where
  "main env w =
     (case startup w of
        (Inl e, w1) \<Rightarrow> (1, w1)
      | (Inr _, w1) \<Rightarrow>
          (case main_try env w1 of
             (Inl e, w2) \<Rightarrow> (1, w2\<lparr>log := log w2 @ [Error_Pipeline_failed e]\<rparr>)
           | (Inr _, w2) \<Rightarrow> (0, w2)))"

subsection \<open>Concrete inputs\<close>

text \<open>
  The converter used at concrete inputs reads a non-empty string of decimal digits, as
  Python's \<open>int\<close> does; floats are stood for by their text.
\<close>

definition digits_int :: "string \<Rightarrow> int option" where
  "digits_int s =
     (if s \<noteq> [] \<and> list_all is_digit s
      then Some (int (foldl (\<lambda>a c. 10 * a + digit_val c) 0 s)) else None)"

definition empty_world :: "string world" where
  "empty_world = \<lparr>dates = [], date_seq = 0, user_interaction = [], content_metrics = [],
     site_data = [], csv_files = [], log = [], api_calls = 0, faults = []\<rparr>"

text \<open>One record of each category for the first of January 2024.\<close>

definition example_data :: "string data" where
  "example_data = \<lparr>df_users = [UserEntry ''2024-01-01'' 100 120 ''0.55'' 5 ''42.3''],
     df_content = [ContentEntry ''2024-01-01'' ''Home'' 300 120 ''0.55'' ''42.3''],
     df_site = [SiteEntry ''2024-01-01'' ''shoes'' 10 200]\<rparr>"

text \<open>
  A run on the second of January 2024 in which every attempt against the API returns
  one row per category for the first of January.
\<close>

definition example_env :: "string env" where
  "example_env = \<lparr>today = Date 2024 1 2,
     api = (\<lambda>start_date end_date k. Inr
       ([\<lparr>dimension_values = [''20240101''],
           metric_values = [''100'', ''120'', ''0.55'', ''5'', ''42.3'']\<rparr>],
        [\<lparr>dimension_values = [''20240101'', ''Home''],
           metric_values = [''300'', ''120'', ''0.55'', ''42.3'']\<rparr>],
        [\<lparr>dimension_values = [''20240101'', ''shoes''],
           metric_values = [''10'', ''200'']\<rparr>])),
     int_of = digits_int, float_of = Some, set_order = id\<rparr>"

text \<open>The same run with an API that fails at every attempt.\<close>

definition failing_env :: "string env" where
  "failing_env = example_env\<lparr>api := (\<lambda>start_date end_date k. Inl ApiError)\<rparr>"

text \<open>The same run with an API that returns no row for the content category.\<close>

definition partial_env :: "string env" where
  "partial_env = example_env\<lparr>api := (\<lambda>start_date end_date k. Inr
       ([\<lparr>dimension_values = [''20240101''],
           metric_values = [''100'', ''120'', ''0.55'', ''5'', ''42.3'']\<rparr>],
        [],
        [\<lparr>dimension_values = [''20240101'', ''shoes''],
           metric_values = [''10'', ''200'']\<rparr>]))\<rparr>"

subsection \<open>Observations of the state\<close>

text \<open>
  The committed fact rows, and everything that is stored: the dimension, the fact rows
  and the exported files.
\<close>

definition facts :: "'f world \<Rightarrow> 'f fact list \<times> 'f fact list \<times> 'f fact list" where
  "facts w = (user_interaction w, content_metrics w, site_data w)"

definition store ::
  "'f world \<Rightarrow> (nat \<times> string) list \<times> nat \<times> ('f fact list \<times> 'f fact list \<times> 'f fact list)
     \<times> (string \<times> 'f entry list) list" where
  "store w = (dates w, date_seq w, facts w, csv_files w)"

text \<open>\<open>keeps obs m\<close>: however \<open>m\<close> ends, it leaves the observation as it was.\<close>

definition keeps :: "('s \<Rightarrow> 'o) \<Rightarrow> ('a, 's) prog \<Rightarrow> bool" where
  "keeps obs m = (\<forall>s r s'. m s = (r, s') \<longrightarrow> obs s' = obs s)"

text \<open>\<open>raises_only E m\<close>: an exception of \<open>m\<close> is one of \<open>E\<close>.\<close>

definition raises_only :: "error set \<Rightarrow> ('a, 's) prog \<Rightarrow> bool" where
  "raises_only E m = (\<forall>s e s'. m s = (Inl e, s') \<longrightarrow> e \<in> E)"

text \<open>The relational content of the database: the dimension and the fact rows.\<close>

definition dim ::
  "'f world \<Rightarrow> (nat \<times> string) list \<times> nat \<times> ('f fact list \<times> 'f fact list \<times> 'f fact list)" where
  "dim w = (dates w, date_seq w, facts w)"

text \<open>\<open>preserves P m\<close>: when \<open>P\<close> holds before \<open>m\<close>, it holds after, however \<open>m\<close> ends.\<close>

definition preserves :: "('s \<Rightarrow> bool) \<Rightarrow> ('a, 's) prog \<Rightarrow> bool" where
  "preserves P m = (\<forall>s r s'. P s \<longrightarrow> m s = (r, s') \<longrightarrow> P s')"

text \<open>\<open>relates R m\<close>: the states before and after \<open>m\<close> are in \<open>R\<close>.\<close>

definition relates :: "('s \<Rightarrow> 's \<Rightarrow> bool) \<Rightarrow> ('a, 's) prog \<Rightarrow> bool" where
  "relates R m = (\<forall>s r s'. m s = (r, s') \<longrightarrow> R s s')"

text \<open>The log is only ever appended to.\<close>

definition log_extends :: "'f world \<Rightarrow> 'f world \<Rightarrow> bool" where
  "log_extends s s' = (\<exists>l. log s' = log s @ l)"

text \<open>No two rows of the dimension hold the same calendar value.\<close>

definition unique_dates :: "'f world \<Rightarrow> bool" where
  "unique_dates w = distinct (map snd (dates w))"

text \<open>Every fact row refers to a row of the dimension.\<close>

definition ref_integrity :: "'f world \<Rightarrow> bool" where
  "ref_integrity w =
     list_all (\<lambda>r. date_id r \<in> fst ` set (dates w))
       (user_interaction w @ content_metrics w @ site_data w)"

section \<open>Properties\<close>

lemmas run_defs =
  ret_def raise_def and_then_def catch_def gets_def modify_def lift_def on_ok_def
  fallible_def execute_def commit_def logger_def init_db_def startup_def
  select_date_id_def next_date_id_def check_unique_def insert_date_def
  get_or_create_date_id_try_def get_or_create_date_id_def
  get_last_date_try_def get_last_date_def sql_max_def
  column_date_def collect_dates_def lookup_def user_row_def content_row_def site_row_def
  to_csv_def insert_facts_def commit_facts_def export_csv_def save_data_try_def save_data_def
  empty_world_def example_data_def

lemmas parse_defs =
  strptime_hyphenated_def strptime_compact_def matches_hyphenated_def matches_compact_def
  finish_parse_def re_m_def re_d_def in_range_def is_digit_def digit_val_def make_date_def
  days_in_month_def is_leap_def DAYS_IN_MONTH_def parse_last_date_def

lemmas date_defs =
  date_add_def toordinal_def fromordinal_def days_before_year_def days_before_month_def
  DAYS_BEFORE_MONTH_def DAYS_IN_MONTH_def is_leap_def MAXORDINAL_def date_gt_def
  fetch_window_def strftime_def pad2_def pad4_def digit_char_def

lemmas fetch_defs =
  fetch_ga4_data_def fetch_attempt_def report_def process_row_def index_def convert_def
  formatted_date_def digits_int_def is_digit_def digit_val_def numeral_3_eq_3
  example_env_def failing_env_def partial_env_def

subsection \<open>The library functions at sample inputs\<close>

text \<open>
  The values are the ones Python gives: the day after the 28th of February of a leap
  year, the turn of a year, the last day of the calendar, and the matches the
  backtracking search of \<open>strptime\<close> finds on strings that are not 8 digits.
\<close>

lemma date_add_examples:
  "date_add (Date 2024 2 28) 1 = Inr (Date 2024 2 29)"
  "date_add (Date 2023 12 31) 1 = Inr (Date 2024 1 1)"
  "date_add (Date 2024 3 1) (- 30) = Inr (Date 2024 1 31)"
  "date_add (Date 9999 12 31) 1 = Inl OverflowError"
  "date_add (Date 1 1 15) (- 30) = Inl OverflowError"
  by (simp_all add: date_defs)

lemma strptime_examples:
  "strptime_compact ''202412'' = Inr (Date 2024 1 2)"
  "strptime_compact ''2024115'' = Inr (Date 2024 11 5)"
  "strptime_compact ''2024100'' = Inl ValueError"
  "strptime_hyphenated ''2024-3-5'' = Inr (Date 2024 3 5)"
  "strptime_hyphenated ''2024-05- 7'' = Inr (Date 2024 5 7)"
  "strptime_hyphenated ''2023-02-29'' = Inl ValueError"
  "strptime_hyphenated ''0000-01-01'' = Inl ValueError"
  "strptime_hyphenated ''2024-03-15x'' = Inl ValueError"
  by (simp_all add: parse_defs)

subsection \<open>Rules for sequencing and handlers\<close>

lemma and_then_Inr:
  "and_then m f s = (Inr y, s') \<longleftrightarrow> (\<exists>x s1. m s = (Inr x, s1) \<and> f x s1 = (Inr y, s'))"
  by (auto simp: and_then_def split: prod.splits sum.splits)

lemma and_then_Inl:
  "and_then m f s = (Inl e, s') \<longleftrightarrow>
     (m s = (Inl e, s') \<or> (\<exists>x s1. m s = (Inr x, s1) \<and> f x s1 = (Inl e, s')))"
  by (auto simp: and_then_def split: prod.splits sum.splits)

lemma catch_eq:
  "catch m h s = (r, s') \<longleftrightarrow>
     ((\<exists>x. m s = (Inr x, s') \<and> r = Inr x) \<or> (\<exists>e s1. m s = (Inl e, s1) \<and> h e s1 = (r, s')))"
  by (auto simp: catch_def split: prod.splits sum.splits)

lemma logger_Inl [simp]: "logger l s = (Inl e, s') \<longleftrightarrow> False"
  by (simp add: logger_def modify_def)

lemma raises_onlyD: "raises_only E m \<Longrightarrow> m s = (Inl e, s') \<Longrightarrow> e \<in> E"
  by (auto simp: raises_only_def)

lemma raises_only_and_then:
  "raises_only E m \<Longrightarrow> (\<And>x. raises_only E (f x)) \<Longrightarrow> raises_only E (and_then m f)"
  unfolding raises_only_def and_then_Inl by blast

lemma raises_only_catch:
  "raises_only E m \<Longrightarrow> (\<And>e. e \<in> E \<Longrightarrow> raises_only E (h e)) \<Longrightarrow> raises_only E (catch m h)"
  unfolding raises_only_def catch_eq by blast

lemma raises_only_pure:
  "raises_only E (ret x)" "raises_only E (gets g)" "raises_only E (modify f)"
  "raises_only E (logger l)"
  "e \<in> E \<Longrightarrow> raises_only E (raise e)"
  "e \<in> E \<Longrightarrow> raises_only E (fallible e)"
  by (auto simp: raises_only_def ret_def gets_def modify_def raise_def logger_def
      fallible_def split: list.splits if_splits)

lemma keepsD: "keeps obs m \<Longrightarrow> m s = (r, s') \<Longrightarrow> obs s' = obs s"
  by (auto simp: keeps_def)

lemma keeps_and_then:
  "keeps obs m \<Longrightarrow> (\<And>x. keeps obs (f x)) \<Longrightarrow> keeps obs (and_then m f)"
  unfolding keeps_def and_then_def by (fastforce split: prod.splits sum.splits)

lemma keeps_catch:
  "keeps obs m \<Longrightarrow> (\<And>e. keeps obs (h e)) \<Longrightarrow> keeps obs (catch m h)"
  unfolding keeps_def catch_def by (fastforce split: prod.splits sum.splits)

lemma keeps_pure:
  "keeps obs (ret x)" "keeps obs (raise e)" "keeps obs (lift r)" "keeps obs (gets g)"
  by (auto simp: keeps_def ret_def raise_def lift_def gets_def)

lemma keeps_modify: "(\<And>s. obs (f s) = obs s) \<Longrightarrow> keeps obs (modify f)"
  by (auto simp: keeps_def modify_def)

lemma keeps_fallible:
  "(\<And>w bs. obs (w\<lparr>faults := bs\<rparr>) = obs w) \<Longrightarrow> keeps obs (fallible e)"
  by (auto simp: keeps_def fallible_def split: list.splits if_splits)

lemma keeps_retry: "keeps obs f \<Longrightarrow> keeps obs (retry n f)"
  by (induction n) (auto intro!: keeps_catch keeps_pure)

subsection \<open>What each function leaves untouched\<close>

lemma store_simps:
  "store (w\<lparr>faults := bs\<rparr>) = store w"
  "store (w\<lparr>log := l\<rparr>) = store w"
  "store (w\<lparr>api_calls := k\<rparr>) = store w"
  "facts (w\<lparr>faults := bs\<rparr>) = facts w"
  "facts (w\<lparr>log := l\<rparr>) = facts w"
  "facts (w\<lparr>api_calls := k\<rparr>) = facts w"
  "facts (w\<lparr>dates := ds\<rparr>) = facts w"
  "facts (w\<lparr>date_seq := n\<rparr>) = facts w"
  "facts (w\<lparr>csv_files := c\<rparr>) = facts w"
  by (simp_all add: store_def facts_def)

lemma keeps_store_basic:
  "keeps store execute" "keeps store commit" "keeps store (logger x)"
  by (auto simp: execute_def commit_def logger_def store_simps
      intro!: keeps_fallible keeps_modify)

lemma keeps_facts_basic:
  "keeps facts execute" "keeps facts commit" "keeps facts (logger x)"
  "keeps facts (fallible e)"
  by (auto simp: execute_def commit_def logger_def store_simps
      intro!: keeps_fallible keeps_modify)

lemma keeps_store_init_db: "keeps store init_db"
  unfolding init_db_def by (intro keeps_and_then keeps_store_basic)

lemma keeps_store_get_last_date: "keeps store get_last_date"
  unfolding get_last_date_def get_last_date_try_def
  by (intro keeps_and_then keeps_catch keeps_store_basic keeps_pure)
     (auto intro!: keeps_pure keeps_and_then split: option.splits)

lemma keeps_store_fetch: "keeps store (fetch_ga4_data env a b)"
  unfolding fetch_ga4_data_def fetch_attempt_def
  by (intro keeps_retry keeps_and_then keeps_catch keeps_store_basic keeps_pure
      keeps_modify store_simps)

lemma keeps_store_insert_rows: "keeps store (insert_rows params rows pending)"
  by (induction rows arbitrary: pending)
     (auto intro!: keeps_and_then keeps_pure keeps_store_basic)

lemma keeps_store_insert_facts: "keeps store (insert_facts m data)"
  unfolding insert_facts_def by (intro keeps_and_then keeps_store_insert_rows keeps_pure)

lemma keeps_facts_get_or_create: "keeps facts (get_or_create_date_id d)"
  unfolding get_or_create_date_id_def get_or_create_date_id_try_def insert_date_def
    check_unique_def
  apply (intro keeps_and_then keeps_catch keeps_facts_basic keeps_pure)
   apply (auto intro!: keeps_pure keeps_and_then keeps_facts_basic keeps_modify
      simp: store_simps split: option.splits)
  apply (auto simp: keeps_def)
  done

lemma keeps_facts_create: "keeps facts (create_date_entries ds m)"
  by (induction ds arbitrary: m)
     (auto intro!: keeps_and_then keeps_pure keeps_facts_get_or_create)

subsection \<open>The exceptions of the writer and the rows it commits\<close>

lemma dim_simps:
  "dim (w\<lparr>faults := bs\<rparr>) = dim w" "dim (w\<lparr>log := l\<rparr>) = dim w"
  "dim (w\<lparr>csv_files := c\<rparr>) = dim w" "dim (w\<lparr>api_calls := k\<rparr>) = dim w"
  by (simp_all add: dim_def facts_def)

lemma raises_only_get_or_create:
  "raises_only {KeyError, OperationalError, IntegrityError} (get_or_create_date_id d)"
  unfolding get_or_create_date_id_def get_or_create_date_id_try_def insert_date_def
    execute_def commit_def
  apply (intro raises_only_and_then raises_only_catch raises_only_pure)
      apply (auto intro!: raises_only_pure raises_only_and_then split: option.splits)
  apply (auto simp: raises_only_def check_unique_def split: if_splits)
  done

lemma raises_only_create:
  "raises_only {KeyError, OperationalError, IntegrityError} (create_date_entries ds m)"
  by (induction ds arbitrary: m)
     (auto intro!: raises_only_and_then raises_only_pure raises_only_get_or_create)

lemma row_errors:
  "user_row m e = Inl x \<Longrightarrow> x = KeyError"
  "content_row m e = Inl x \<Longrightarrow> x = KeyError"
  "site_row m e = Inl x \<Longrightarrow> x = KeyError"
  by (auto simp: user_row_def content_row_def site_row_def on_ok_def lookup_def
      split: sum.splits option.splits entry.splits)

lemma raises_only_insert_rows:
  "(\<And>e x. params e = Inl x \<Longrightarrow> x = KeyError) \<Longrightarrow>
   raises_only {KeyError, OperationalError, IntegrityError} (insert_rows params rows p)"
proof (induction rows arbitrary: p)
  case Nil
  then show ?case by (simp add: raises_only_pure)
next
  case (Cons r rows)
  have "raises_only {KeyError, OperationalError, IntegrityError} (lift (params r))"
    using Cons.prems by (auto simp: raises_only_def lift_def)
  then show ?case using Cons
    by (auto intro!: raises_only_and_then raises_only_pure simp: execute_def)
qed

lemma raises_only_insert_facts:
  "raises_only {KeyError, OperationalError, IntegrityError} (insert_facts m data)"
  unfolding insert_facts_def
  by (intro raises_only_and_then raises_only_insert_rows raises_only_pure row_errors)

lemma collect_dates_error: "collect_dates data = Inl e \<Longrightarrow> e = KeyError"
  by (auto simp: collect_dates_def column_date_def on_ok_def split: if_splits sum.splits)

lemma commit_facts_Inl:
  "commit_facts p w = (Inl e, w') \<Longrightarrow> e = OperationalError \<and> store w' = store w"
  by (cases p)
     (auto simp: commit_facts_def commit_def fallible_def and_then_Inl modify_def store_simps
      split: list.splits if_splits)

lemma commit_facts_Inr:
  "commit_facts (pu, pc, ps) w = (Inr u, w') \<Longrightarrow>
     user_interaction w' = user_interaction w @ pu \<and> content_metrics w' = content_metrics w @ pc
     \<and> site_data w' = site_data w @ ps \<and> dates w' = dates w \<and> date_seq w' = date_seq w"
  by (auto simp: commit_facts_def commit_def fallible_def and_then_Inr modify_def
      split: list.splits if_splits)

lemma keeps_dim_export: "keeps dim (export_csv data)"
  unfolding export_csv_def to_csv_def
  by (intro keeps_and_then keeps_fallible keeps_modify dim_simps)

lemma raises_only_export: "raises_only {OSError} (export_csv data)"
  unfolding export_csv_def to_csv_def
  by (intro raises_only_and_then raises_only_pure) simp_all

lemma insert_rows_result:
  "insert_rows params rows p w = (Inr p', w') \<Longrightarrow>
     \<exists>q. p' = p @ q \<and> list_all2 (\<lambda>e r. params e = Inr r) rows q"
proof (induction rows arbitrary: p w)
  case Nil
  then show ?case by (simp add: ret_def)
next
  case (Cons r rows)
  from Cons.prems obtain f s2 where
    f: "params r = Inr f" and rest: "insert_rows params rows (p @ [f]) s2 = (Inr p', w')"
    by (auto simp: and_then_Inr lift_def)
  from Cons.IH [OF rest] obtain q where
    "p' = (p @ [f]) @ q" "list_all2 (\<lambda>e r. params e = Inr r) rows q"
    by blast
  then show ?case using f by (intro exI [of _ "f # q"]) simp
qed

lemma insert_facts_result:
  assumes "insert_facts m data w = (Inr (pu, pc, ps), w')"
  shows "list_all2 (\<lambda>e r. user_row m e = Inr r) (df_users data) pu
       \<and> list_all2 (\<lambda>e r. content_row m e = Inr r) (df_content data) pc
       \<and> list_all2 (\<lambda>e r. site_row m e = Inr r) (df_site data) ps"
  using assms unfolding insert_facts_def
  by (auto simp: and_then_Inr ret_def dest!: insert_rows_result)

text \<open>
  C1, as the code has it. When the body of \<open>save_data\<close> raises, \<open>save_data\<close>
  raises the same exception to its caller. If the exception is not the \<open>OSError\<close> of a
  file export, that is, if a date resolution, a fact insertion or the commit failed, the
  three fact tables are as they were before the call: no row of the call is committed.
  The export of the files runs after the commit, inside the same \<open>try\<close>: when an
  export fails, every fact row of the call is already committed and stays committed,
  for the rollback has nothing left to undo. Either way the fact rows of a call are
  committed all together or not at all.
\<close>

theorem save_data_atomic:
  assumes "save_data_try order data w = (Inl e, w1)"
  shows "\<exists>w'. save_data order data w = (Inl e, w')
           \<and> (e \<noteq> OSError \<longrightarrow> facts w' = facts w)
           \<and> (e = OSError \<longrightarrow>
                (\<exists>pu pc ps. user_interaction w' = user_interaction w @ pu
                   \<and> content_metrics w' = content_metrics w @ pc
                   \<and> site_data w' = site_data w @ ps
                   \<and> length pu = length (df_users data)
                   \<and> length pc = length (df_content data)
                   \<and> length ps = length (df_site data)))"
proof -
  let ?w' = "w1\<lparr>log := log w1 @ [Error_Data_save_failed e]\<rparr>"
  have run: "save_data order data w = (Inl e, ?w')"
    using assms
    by (simp add: save_data_def catch_def and_then_def logger_def modify_def raise_def)
  have f': "facts ?w' = facts w1" by (simp add: store_simps)
  let ?E = "{KeyError, OperationalError, IntegrityError}"
  consider
      (collect) "lift (collect_dates data) w = (Inl e, w1)"
    | (create) ds where "create_date_entries ds Map.empty w = (Inl e, w1)"
    | (insert) ds m s1 where "create_date_entries ds Map.empty w = (Inr m, s1)"
        "insert_facts m data s1 = (Inl e, w1)"
    | (commit) ds m s1 p s2 where "create_date_entries ds Map.empty w = (Inr m, s1)"
        "insert_facts m data s1 = (Inr p, s2)" "commit_facts p s2 = (Inl e, w1)"
    | (export) ds m s1 p s2 s3 s4 l where "create_date_entries ds Map.empty w = (Inr m, s1)"
        "insert_facts m data s1 = (Inr p, s2)" "commit_facts p s2 = (Inr (), s3)"
        "logger l s3 = (Inr (), s4)" "export_csv data s4 = (Inl e, w1)"
    using assms unfolding save_data_try_def
    by (auto simp: and_then_Inl lift_def)
  then have "(e \<noteq> OSError \<longrightarrow> facts w1 = facts w)
           \<and> (e = OSError \<longrightarrow>
                (\<exists>pu pc ps. user_interaction w1 = user_interaction w @ pu
                   \<and> content_metrics w1 = content_metrics w @ pc
                   \<and> site_data w1 = site_data w @ ps
                   \<and> length pu = length (df_users data)
                   \<and> length pc = length (df_content data)
                   \<and> length ps = length (df_site data)))"
  proof cases
    case collect
    then show ?thesis using collect_dates_error [of data e] by (auto simp: lift_def)
  next
    case create
    then show ?thesis
      using keepsD [OF keeps_facts_create create] raises_onlyD [OF raises_only_create create]
      by auto
  next
    case insert
    have "facts s1 = facts w" using keepsD [OF keeps_facts_create insert(1)] .
    moreover have "store w1 = store s1"
      using keepsD [OF keeps_store_insert_facts insert(2)] .
    moreover have "e \<in> ?E" using raises_onlyD [OF raises_only_insert_facts insert(2)] .
    ultimately show ?thesis by (auto simp: store_def)
  next
    case commit
    have "facts s1 = facts w" using keepsD [OF keeps_facts_create commit(1)] .
    moreover have "store s2 = store s1"
      using keepsD [OF keeps_store_insert_facts commit(2)] .
    moreover have "e = OperationalError \<and> store w1 = store s2"
      using commit_facts_Inl [OF commit(3)] .
    ultimately show ?thesis by (auto simp: store_def)
  next
    case export
    obtain pu pc ps where p: "p = (pu, pc, ps)" by (cases p) auto
    have a: "facts s1 = facts w" using keepsD [OF keeps_facts_create export(1)] .
    have b: "store s2 = store s1" using keepsD [OF keeps_store_insert_facts export(2)] .
    have c: "user_interaction s3 = user_interaction s2 @ pu
       \<and> content_metrics s3 = content_metrics s2 @ pc \<and> site_data s3 = site_data s2 @ ps"
      using commit_facts_Inr [of pu pc ps s2 "()" s3] export(3) p by simp
    have d: "facts s4 = facts s3" using keepsD [OF keeps_facts_basic(3) export(4)] .
    have e: "dim w1 = dim s4" using keepsD [OF keeps_dim_export export(5)] .
    have f: "e = OSError" using raises_onlyD [OF raises_only_export export(5)] by simp
    have g: "length pu = length (df_users data) \<and> length pc = length (df_content data)
       \<and> length ps = length (df_site data)"
      using insert_facts_result [of m data s1 pu pc ps s2] export(2) p
      by (auto dest: list_all2_lengthD)
    show ?thesis using a b c d e f g by (auto simp: store_def facts_def dim_def)
  qed
  then show ?thesis using run f' by (auto simp: facts_def)
qed

text \<open>
  An instance: the insertion of the content row fails (the fifth storage operation of
  the call, after the three of the date resolution and the insertion of the engagement
  row); the exception reaches the caller and no fact row is committed.
\<close>

theorem save_data_atomic_witness:
  "fst (save_data_try id example_data
          (empty_world\<lparr>faults := [False, False, False, False, True]\<rparr>)) = Inl OperationalError
   \<and> fst (save_data id example_data
          (empty_world\<lparr>faults := [False, False, False, False, True]\<rparr>)) = Inl OperationalError
   \<and> facts (snd (save_data id example_data
          (empty_world\<lparr>faults := [False, False, False, False, True]\<rparr>))) = ([], [], [])"
proof -
  have step: "save_data_try id example_data
      (empty_world\<lparr>faults := [False, False, False, False, True]\<rparr>)
    = (Inl OperationalError,
       empty_world\<lparr>dates := [(1, ''2024-01-01'')], date_seq := 1, faults := []\<rparr>)"
    by (simp add: run_defs)
  show ?thesis
    using save_data_atomic [OF step] step by (auto simp: facts_def empty_world_def)
qed

text \<open>
  C1, as stated, fails where the step that fails is an export: the eighth storage or
  file operation of this call is the export of the first file. The call raises, and
  the engagement, content and site-search rows of the call are committed.
\<close>

theorem save_data_export_failure_counterexample:
  "fst (save_data id example_data
          (empty_world\<lparr>faults := [False, False, False, False, False, False, False, True]\<rparr>))
     = Inl OSError
   \<and> user_interaction (snd (save_data id example_data
          (empty_world\<lparr>faults := [False, False, False, False, False, False, False, True]\<rparr>)))
     = [UserRow 1 100 120 ''0.55'' 5 ''42.3'']
   \<and> content_metrics (snd (save_data id example_data
          (empty_world\<lparr>faults := [False, False, False, False, False, False, False, True]\<rparr>)))
     = [ContentRow 1 ''Home'' 300 120 ''0.55'' ''42.3'']
   \<and> site_data (snd (save_data id example_data
          (empty_world\<lparr>faults := [False, False, False, False, False, False, False, True]\<rparr>)))
     = [SiteRow 1 ''shoes'' 10 200]"
  by (simp add: run_defs)

subsection \<open>The date dimension\<close>

lemma prim_eq:
  "ret x s = (r, s') \<longleftrightarrow> r = Inr x \<and> s' = s"
  "raise e s = (r, s') \<longleftrightarrow> r = Inl e \<and> s' = s"
  "gets g s = (r', s') \<longleftrightarrow> r' = Inr (g s) \<and> s' = s"
  "modify f s = (ru, s') \<longleftrightarrow> ru = Inr () \<and> s' = f s"
  "lift v s = (rv, s') \<longleftrightarrow> rv = v \<and> s' = s"
  by (auto simp: ret_def raise_def gets_def modify_def lift_def)

lemma select_date_id_Some: "select_date_id d ds = Some i \<Longrightarrow> (i, d) \<in> set ds"
  by (induction ds) (auto simp: select_date_id_def split: if_splits)

lemma select_date_id_None: "select_date_id d ds = None \<longleftrightarrow> d \<notin> snd ` set ds"
  by (induction ds) (auto simp: select_date_id_def)

lemma select_date_id_append:
  "select_date_id d ds = None \<Longrightarrow> select_date_id d (ds @ [(i, d)]) = Some i"
  by (induction ds) (auto simp: select_date_id_def)

lemma keeps_check_unique: "keeps obs (check_unique d)"
  by (auto simp: check_unique_def keeps_def)

lemma keeps_dim_basic:
  "keeps dim execute" "keeps dim commit" "keeps dim (logger x)" "keeps dim (check_unique d)"
  by (auto simp: execute_def commit_def logger_def dim_simps keeps_check_unique
      intro!: keeps_fallible keeps_modify)

lemma insert_date_Inr:
  assumes "insert_date d w = (Inr i, w')"
  shows "dates w' = dates w @ [(i, d)] \<and> date_seq w' = i \<and> i = next_date_id w \<and> facts w' = facts w"
proof -
  from assms obtain s1 s2 s3 where
    1: "execute w = (Inr (), s1)" and 2: "check_unique d s1 = (Inr (), s2)"
    and 3: "commit s2 = (Inr (), s3)"
    and 4: "i = next_date_id s3" "w' = s3\<lparr>dates := dates s3 @ [(i, d)], date_seq := i\<rparr>"
    unfolding insert_date_def by (auto simp: and_then_Inr prim_eq)
  have "dim s3 = dim w"
    using keepsD [OF keeps_dim_basic(1) 1] keepsD [OF keeps_dim_basic(4) 2]
      keepsD [OF keeps_dim_basic(2) 3] by simp
  then show ?thesis using 4 by (auto simp: dim_def facts_def next_date_id_def)
qed

lemma keeps_dim_insert_date_Inl: "insert_date d w = (Inl e, w') \<Longrightarrow> dim w' = dim w"
  unfolding insert_date_def
  by (auto simp: and_then_Inl prim_eq dest!: keepsD [OF keeps_dim_basic(1)]
      keepsD [OF keeps_dim_basic(2)] keepsD [OF keeps_dim_basic(4)])

lemma get_or_create_try_Inr:
  assumes "get_or_create_date_id_try d w = (Inr i, w')"
  shows "(select_date_id d (dates w) = Some i \<and> dim w' = dim w)
       \<or> (select_date_id d (dates w) = None \<and> dates w' = dates w @ [(i, d)]
           \<and> date_seq w' = i \<and> i = next_date_id w \<and> facts w' = facts w)"
proof -
  from assms obtain s1 where
    1: "execute w = (Inr (), s1)" and
    2: "(case select_date_id d (dates s1) of Some result \<Rightarrow> ret result
         | None \<Rightarrow> insert_date d) s1 = (Inr i, w')"
    unfolding get_or_create_date_id_try_def by (auto simp: and_then_Inr prim_eq)
  have d: "dim s1 = dim w" using keepsD [OF keeps_dim_basic(1) 1] .
  show ?thesis
  proof (cases "select_date_id d (dates s1)")
    case None
    then show ?thesis using 2 d insert_date_Inr [of d s1 i w']
      by (auto simp: dim_def next_date_id_def)
  next
    case (Some r)
    then show ?thesis using 2 d by (auto simp: prim_eq dim_def)
  qed
qed

lemma get_or_create_try_Inl:
  assumes "get_or_create_date_id_try d w = (Inl e, w')"
  shows "dim w' = dim w"
proof -
  from assms consider "execute w = (Inl e, w')"
    | s1 where "execute w = (Inr (), s1)" "(case select_date_id d (dates s1) of Some result \<Rightarrow> ret result
         | None \<Rightarrow> insert_date d) s1 = (Inl e, w')"
    unfolding get_or_create_date_id_try_def by (auto simp: and_then_Inl prim_eq)
  then show ?thesis
  proof cases
    case 1
    then show ?thesis using keepsD [OF keeps_dim_basic(1)] by blast
  next
    case 2
    have d: "dim s1 = dim w" using keepsD [OF keeps_dim_basic(1) 2(1)] .
    show ?thesis using 2(2) d keeps_dim_insert_date_Inl [of d s1 e w']
      by (cases "select_date_id d (dates s1)") (auto simp: prim_eq)
  qed
qed

lemma get_or_create_cases:
  "get_or_create_date_id d w = (Inr i, w') \<longleftrightarrow> get_or_create_date_id_try d w = (Inr i, w')"
  "get_or_create_date_id d w = (Inl e, w') \<longleftrightarrow>
     (\<exists>s. get_or_create_date_id_try d w = (Inl e, s)
        \<and> w' = s\<lparr>log := log s @ [Error_Date_ID_lookup_failed e]\<rparr>)"
  unfolding get_or_create_date_id_def
  by (auto simp: catch_eq and_then_Inr and_then_Inl prim_eq logger_def)

lemma get_or_create_Inl: "get_or_create_date_id d w = (Inl e, w') \<Longrightarrow> dim w' = dim w"
  by (auto simp: get_or_create_cases dim_simps dest: get_or_create_try_Inl)

lemma get_or_create_member:
  "get_or_create_date_id d w = (Inr i, w') \<Longrightarrow> (i, d) \<in> set (dates w')"
  unfolding get_or_create_cases
  by (drule get_or_create_try_Inr) (auto dest: select_date_id_Some simp: dim_def)

lemma get_or_create_mono:
  "get_or_create_date_id d w = (r, w') \<Longrightarrow> set (dates w) \<subseteq> set (dates w')"
proof (cases r)
  case (Inl e)
  assume "get_or_create_date_id d w = (r, w')"
  then show ?thesis using Inl get_or_create_Inl [of d w e w'] by (simp add: dim_def)
next
  case (Inr i)
  assume "get_or_create_date_id d w = (r, w')"
  then show ?thesis using Inr get_or_create_try_Inr [of d w i w']
    by (auto simp: get_or_create_cases dim_def)
qed

lemma create_date_entries_map:
  assumes "create_date_entries ds m w = (Inr m', w')"
    and "\<And>k v. m k = Some v \<Longrightarrow> (v, k) \<in> set (dates w)"
  shows "(\<forall>k v. m' k = Some v \<longrightarrow> (v, k) \<in> set (dates w')) \<and> set (dates w) \<subseteq> set (dates w')"
  using assms
proof (induction ds arbitrary: m w)
  case Nil
  then show ?case by (auto simp: ret_def)
next
  case (Cons d ds)
  from Cons.prems(1) obtain i s1 where
    a: "get_or_create_date_id d w = (Inr i, s1)" and
    b: "create_date_entries ds (m(d \<mapsto> i)) s1 = (Inr m', w')"
    by (auto simp: and_then_Inr)
  have mono: "set (dates w) \<subseteq> set (dates s1)" using get_or_create_mono [OF a] .
  have "\<And>k v. (m(d \<mapsto> i)) k = Some v \<Longrightarrow> (v, k) \<in> set (dates s1)"
    using Cons.prems(2) mono get_or_create_member [OF a] by (auto split: if_splits)
  from Cons.IH [OF b this] show ?case using mono by auto
qed

lemma row_date_id:
  "user_row m e = Inr r \<Longrightarrow> m (date e) = Some (date_id r)"
  "content_row m e = Inr r \<Longrightarrow> m (date e) = Some (date_id r)"
  "site_row m e = Inr r \<Longrightarrow> m (date e) = Some (date_id r)"
  by (auto simp: user_row_def content_row_def site_row_def on_ok_def lookup_def
      split: sum.splits option.splits entry.splits)

lemma list_all2_right: "list_all2 P xs ys \<Longrightarrow> y \<in> set ys \<Longrightarrow> \<exists>x. P x y"
  by (induction rule: list_all2_induct) auto

lemma ref_integrity_iff:
  "ref_integrity w \<longleftrightarrow>
     (\<forall>r \<in> set (user_interaction w) \<union> set (content_metrics w) \<union> set (site_data w).
        date_id r \<in> fst ` set (dates w))"
  by (auto simp: ref_integrity_def list_all_iff)

subsection \<open>One identifier per calendar value\<close>

lemma preservesD: "preserves P m \<Longrightarrow> P s \<Longrightarrow> m s = (r, s') \<Longrightarrow> P s'"
  by (auto simp: preserves_def)

lemma preserves_and_then:
  assumes "preserves P m" and "\<And>x. preserves P (f x)"
  shows "preserves P (and_then m f)"
  unfolding preserves_def
proof (intro allI impI)
  fix s r s'
  assume p: "P s" and run: "and_then m f s = (r, s')"
  obtain r1 s1 where m: "m s = (r1, s1)" by (cases "m s") auto
  have p1: "P s1" using preservesD [OF assms(1) p m] .
  show "P s'"
  proof (cases r1)
    case (Inl e)
    then show ?thesis using run m p1 by (simp add: and_then_def)
  next
    case (Inr x)
    then have "f x s1 = (r, s')" using run m by (simp add: and_then_def)
    then show ?thesis using preservesD [OF assms(2) p1] by blast
  qed
qed

lemma preserves_catch:
  assumes "preserves P m" and "\<And>e. preserves P (h e)"
  shows "preserves P (catch m h)"
  unfolding preserves_def
proof (intro allI impI)
  fix s r s'
  assume p: "P s" and run: "catch m h s = (r, s')"
  obtain r1 s1 where m: "m s = (r1, s1)" by (cases "m s") auto
  have p1: "P s1" using preservesD [OF assms(1) p m] .
  show "P s'"
  proof (cases r1)
    case (Inr x)
    then show ?thesis using run m p1 by (simp add: catch_def)
  next
    case (Inl e)
    then have "h e s1 = (r, s')" using run m by (simp add: catch_def)
    then show ?thesis using preservesD [OF assms(2) p1] by blast
  qed
qed

lemma preserves_keeps:
  "keeps obs m \<Longrightarrow> (\<And>s s'. obs s' = obs s \<Longrightarrow> P s \<Longrightarrow> P s') \<Longrightarrow> preserves P m"
  unfolding preserves_def keeps_def by blast

lemma unique_dates_dim: "dim s' = dim s \<Longrightarrow> unique_dates s \<Longrightarrow> unique_dates s'"
  by (simp add: dim_def unique_dates_def)

lemma unique_dates_store: "store s' = store s \<Longrightarrow> unique_dates s \<Longrightarrow> unique_dates s'"
  by (simp add: store_def unique_dates_def)

lemma preserves_unique_get_or_create: "preserves unique_dates (get_or_create_date_id d)"
  unfolding preserves_def
proof (intro allI impI)
  fix s r s'
  assume u: "unique_dates s" and run: "get_or_create_date_id d s = (r, s')"
  show "unique_dates s'"
  proof (cases r)
    case (Inl e)
    then show ?thesis using run u get_or_create_Inl [of d s e s'] unique_dates_dim by blast
  next
    case (Inr i)
    then have "get_or_create_date_id_try d s = (Inr i, s')"
      using run by (simp add: get_or_create_cases)
    from get_or_create_try_Inr [OF this] show ?thesis
      using u by (auto simp: unique_dates_def dim_def select_date_id_None)
  qed
qed

lemma preserves_unique_create: "preserves unique_dates (create_date_entries ds m)"
  by (induction ds arbitrary: m)
     (auto intro!: preserves_and_then preserves_unique_get_or_create
        preserves_keeps [OF keeps_pure(1)])

lemma preserves_unique_commit_facts: "preserves unique_dates (commit_facts p)"
  unfolding preserves_def
  apply (intro allI impI)
  subgoal for s r s'
    apply (cases p; cases r)
    using commit_facts_Inl [of p s _ s'] commit_facts_Inr [of _ _ _ s _ s']
     apply (auto simp: unique_dates_def store_def)
    done
  done

lemma preserves_unique_save_data: "preserves unique_dates (save_data order data)"
  unfolding save_data_def save_data_try_def
  by (intro preserves_and_then preserves_catch preserves_unique_create
      preserves_unique_commit_facts
      preserves_keeps [OF keeps_pure(3) unique_dates_dim]
      preserves_keeps [OF keeps_pure(2) unique_dates_dim]
      preserves_keeps [OF keeps_dim_basic(3) unique_dates_dim]
      preserves_keeps [OF keeps_store_insert_facts unique_dates_store]
      preserves_keeps [OF keeps_dim_export unique_dates_dim])

lemma preserves_unique_main_try: "preserves unique_dates (main_try env)"
  unfolding main_try_def run_window_def
  apply (intro preserves_and_then preserves_keeps [OF keeps_store_get_last_date unique_dates_store]
      preserves_keeps [OF keeps_pure(3) unique_dates_dim])
  apply (auto split: prod.splits intro!: preserves_and_then preserves_unique_save_data
      preserves_keeps [OF keeps_dim_basic(3) unique_dates_dim]
      preserves_keeps [OF keeps_store_fetch unique_dates_store])
  done

lemma unique_dates_main: "unique_dates w \<Longrightarrow> unique_dates (snd (main env w))"
proof -
  assume u: "unique_dates w"
  have a: "preserves unique_dates startup"
    unfolding startup_def
    by (intro preserves_and_then preserves_keeps [OF keeps_dim_basic(3) unique_dates_dim]
        preserves_keeps [OF keeps_store_init_db unique_dates_store])
  obtain r1 w1 where 1: "startup w = (r1, w1)"
    by (cases "startup w") auto
  have u1: "unique_dates w1" using preservesD [OF a u 1] .
  obtain r2 w2 where 2: "main_try env w1 = (r2, w2)" by (cases "main_try env w1") auto
  have u2: "unique_dates w2" using preservesD [OF preserves_unique_main_try u1 2] .
  show ?thesis using 1 2 u1 u2
    by (auto simp: main_def unique_dates_def split: sum.splits)
qed

text \<open>
  C3. When \<open>get_or_create_date_id\<close> has returned an identifier for a date string, a
  second call for the same string on a state with the same dimension, in the same run or
  in a later one, returns the same identifier; it finds the row by the lookup and leaves
  the dimension, its counter and the fact tables as they are. A dimension without two
  rows of the same calendar value stays so through every call of the resolver, however
  the call ends, and through every run of \<open>main\<close>; the empty dimension is one.
\<close>

theorem date_resolution_idempotent:
  "(get_or_create_date_id d w = (Inr i, w1) \<and> dates w2 = dates w1
      \<and> get_or_create_date_id d w2 = (Inr j, w3)
      \<longrightarrow> j = i \<and> select_date_id d (dates w2) = Some i \<and> dim w3 = dim w2)
   \<and> (unique_dates w \<and> get_or_create_date_id d w = (r, w') \<longrightarrow> unique_dates w')
   \<and> (unique_dates w \<longrightarrow> unique_dates (snd (main env w)))
   \<and> unique_dates empty_world"
proof -
  have 1: "j = i \<and> select_date_id d (dates w2) = Some i \<and> dim w3 = dim w2"
    if a: "get_or_create_date_id d w = (Inr i, w1)" and b: "dates w2 = dates w1"
      and c: "get_or_create_date_id d w2 = (Inr j, w3)"
  proof -
    from a have "get_or_create_date_id_try d w = (Inr i, w1)" by (simp add: get_or_create_cases)
    from get_or_create_try_Inr [OF this] have sel: "select_date_id d (dates w2) = Some i"
      using b by (auto simp: dim_def select_date_id_append)
    from c have "get_or_create_date_id_try d w2 = (Inr j, w3)" by (simp add: get_or_create_cases)
    from get_or_create_try_Inr [OF this] sel show ?thesis by auto
  qed
  have 2: "unique_dates w'" if "unique_dates w" "get_or_create_date_id d w = (r, w')"
    using preservesD [OF preserves_unique_get_or_create that] .
  have 3: "unique_dates (empty_world :: string world)"
    by (simp add: unique_dates_def empty_world_def)
  show ?thesis using 1 2 3 unique_dates_main [of w env] by blast
qed

text \<open>
  An instance: the date is resolved twice on the empty database; the first call inserts
  the row with identifier 1, the second finds it.
\<close>

theorem date_resolution_idempotent_witness:
  "get_or_create_date_id ''2024-01-01'' empty_world
     = (Inr 1, empty_world\<lparr>dates := [(1, ''2024-01-01'')], date_seq := 1\<rparr>)
   \<and> get_or_create_date_id ''2024-01-01''
       (empty_world\<lparr>dates := [(1, ''2024-01-01'')], date_seq := 1\<rparr>)
     = (Inr 1, empty_world\<lparr>dates := [(1, ''2024-01-01'')], date_seq := 1\<rparr>)
   \<and> unique_dates empty_world
   \<and> unique_dates (empty_world\<lparr>dates := [(1, ''2024-01-01'')], date_seq := 1\<rparr>)
   \<and> unique_dates (snd (main example_env empty_world))"
proof -
  let ?w1 = "empty_world\<lparr>dates := [(1, ''2024-01-01'')], date_seq := 1\<rparr>"
  have a: "get_or_create_date_id ''2024-01-01'' empty_world = (Inr 1, ?w1)"
    by (simp add: run_defs)
  have b: "get_or_create_date_id ''2024-01-01'' ?w1 = (Inr 1, ?w1)"
    by (simp add: run_defs)
  have c: "unique_dates empty_world"
    by (simp add: unique_dates_def empty_world_def)
  show ?thesis
    using a b c
      date_resolution_idempotent [of "''2024-01-01''" empty_world 1 ?w1 ?w1 1 ?w1 "Inr 1" ?w1
        example_env]
    by simp
qed

subsection \<open>The last ingested date\<close>

lemma sql_max_Nil: "sql_max [] = None" by (simp add: sql_max_def)




text \<open>
  C5 at a dimension that mixes the two encodings: a row in the old compact form for the
  first of January 2024 and a row in the canonical form for the first of June 2024. The
  maximum of the column is taken on the strings, where the digit \<open>0\<close> is above the
  hyphen, so the compact row wins: \<open>get_last_date\<close> returns the first of January,
  although the first of June is in the dimension and is later.
\<close>

theorem get_last_date_mixed_encodings:
  "get_last_date (empty_world\<lparr>dates := [(1, ''20240101''), (2, ''2024-06-01'')], date_seq := 2\<rparr>)
     = (Inr (Some (Date 2024 1 1)),
        empty_world\<lparr>dates := [(1, ''20240101''), (2, ''2024-06-01'')], date_seq := 2\<rparr>)
   \<and> parse_last_date ''2024-06-01'' = Inr (Date 2024 6 1)
   \<and> date_gt (Date 2024 6 1) (Date 2024 1 1)"
  by (simp add: run_defs parse_defs date_gt_def)

subsection \<open>The normalizer and malformed dates\<close>

lemma process_row_date:
  "process_row to_int to_float type row = Inr entry \<Longrightarrow>
     dimension_values row \<noteq> [] \<and> date entry = formatted_date (hd (dimension_values row))"
  by (cases type; cases "dimension_values row")
     (auto simp: process_row_def on_ok_def index_def Let_def split: sum.splits)

lemma process_response_rows:
  "process_response to_int to_float type rows = Inr data \<Longrightarrow>
     list_all2 (\<lambda>row entry. process_row to_int to_float type row = Inr entry) rows data"
  by (induction rows arbitrary: data) (auto simp: on_ok_def split: sum.splits)

lemma process_response_fails:
  "row \<in> set rows \<Longrightarrow> process_row to_int to_float type row = Inl e \<Longrightarrow>
     \<exists>e'. process_response to_int to_float type rows = Inl e'"
  by (induction rows) (auto simp: on_ok_def split: sum.splits)

text \<open>
  C9, as the code has it. The normalizer checks no date. A row without any dimension
  value raises \<open>IndexError\<close>; a row whose first dimension value is any string at all
  gives an entry whose date is made of the slices \<open>[:4]\<close>, \<open>[4:6]\<close> and \<open>[6:8]\<close> of
  that string between hyphens, and no exception is raised for the date: a site-search
  row with two dimension values and two convertible metrics always gives its entry.
  No row is dropped: a normalization that succeeds has one entry per row, in the order
  of the rows, and a row that raises makes the whole normalization raise.
\<close>

theorem normalizer_accepts_any_date_string:
  "(dimension_values row = [] \<longrightarrow> process_row to_int to_float type row = Inl IndexError)
   \<and> (process_row to_int to_float type row = Inr entry \<longrightarrow>
        date entry = formatted_date (hd (dimension_values row)))
   \<and> (to_int a = Some x \<and> to_int b = Some y \<longrightarrow>
        process_row to_int to_float Site \<lparr>dimension_values = [s, t], metric_values = [a, b]\<rparr>
          = Inr (SiteEntry (formatted_date s) t x y))
   \<and> (process_response to_int to_float type rows = Inr data \<longrightarrow>
        length data = length rows
        \<and> list_all2 (\<lambda>row entry. process_row to_int to_float type row = Inr entry) rows data)
   \<and> (row \<in> set rows \<and> process_row to_int to_float type row = Inl e \<longrightarrow>
        (\<exists>e'. process_response to_int to_float type rows = Inl e'))"
proof -
  have 1: "dimension_values row = [] \<longrightarrow> process_row to_int to_float type row = Inl IndexError"
    by (simp add: process_row_def on_ok_def index_def)
  have 2: "process_row to_int to_float type row = Inr entry \<longrightarrow>
        date entry = formatted_date (hd (dimension_values row))"
    using process_row_date [of to_int to_float type row entry] by simp
  have 3: "to_int a = Some x \<and> to_int b = Some y \<longrightarrow>
        process_row to_int to_float Site \<lparr>dimension_values = [s, t], metric_values = [a, b]\<rparr>
          = Inr (SiteEntry (formatted_date s) t x y)"
    by (simp add: process_row_def on_ok_def index_def convert_def)
  have 4: "process_response to_int to_float type rows = Inr data \<longrightarrow>
        length data = length rows
        \<and> list_all2 (\<lambda>row entry. process_row to_int to_float type row = Inr entry) rows data"
    using process_response_rows [of to_int to_float type rows data]
      list_all2_lengthD [of "\<lambda>row entry. process_row to_int to_float type row = Inr entry"
        rows data]
    by auto
  have 5: "row \<in> set rows \<and> process_row to_int to_float type row = Inl e \<longrightarrow>
        (\<exists>e'. process_response to_int to_float type rows = Inl e')"
    using process_response_fails [of row rows to_int to_float type e] by simp
  show ?thesis using 1 2 3 4 5 by blast
qed

text \<open>
  C9, as stated, fails at a row whose date is \<open>2024\<close>, a string that is not 8
  digits: the normalization raises nothing and turns the row into a record with the
  date \<open>2024--\<close>.
\<close>

theorem malformed_date_counterexample:
  "process_response digits_int Some Site
     [\<lparr>dimension_values = [''2024'', ''shoes''], metric_values = [''10'', ''200'']\<rparr>]
   = Inr [SiteEntry ''2024--'' ''shoes'' 10 200 :: string entry]"
  by (simp add: process_row_def on_ok_def index_def convert_def formatted_date_def
      digits_int_def is_digit_def digit_val_def)

text \<open>
  Instances: a row without dimension values, the row with the date \<open>2024\<close>, and the
  two together.
\<close>

theorem normalizer_accepts_any_date_string_witness:
  "dimension_values \<lparr>dimension_values = [], metric_values = [''10'', ''200'']\<rparr> = []
   \<and> process_row digits_int Some Site \<lparr>dimension_values = [], metric_values = [''10'', ''200'']\<rparr>
       = (Inl IndexError :: error + string entry)
   \<and> digits_int ''10'' = Some 10 \<and> digits_int ''200'' = Some 200
   \<and> process_row digits_int Some Site
        \<lparr>dimension_values = [''2024'', ''shoes''], metric_values = [''10'', ''200'']\<rparr>
       = Inr (SiteEntry ''2024--'' ''shoes'' 10 200 :: string entry)
   \<and> process_response digits_int Some Site
        [\<lparr>dimension_values = [''2024'', ''shoes''], metric_values = [''10'', ''200'']\<rparr>]
       = Inr [SiteEntry ''2024--'' ''shoes'' 10 200 :: string entry]
   \<and> (\<exists>e'. process_response digits_int Some Site
        [\<lparr>dimension_values = [''2024'', ''shoes''], metric_values = [''10'', ''200'']\<rparr>,
         \<lparr>dimension_values = [], metric_values = [''10'', ''200'']\<rparr>]
       = (Inl e' :: error + string entry list))"
proof -
  let ?bad = "\<lparr>dimension_values = [], metric_values = [''10'', ''200'']\<rparr>"
  let ?row = "\<lparr>dimension_values = [''2024'', ''shoes''], metric_values = [''10'', ''200'']\<rparr>"
  let ?entry = "SiteEntry ''2024--'' ''shoes'' 10 200 :: string entry"
  have conv: "digits_int ''10'' = Some 10 \<and> digits_int ''200'' = Some 200"
    by (simp add: digits_int_def is_digit_def digit_val_def)
  have fmt: "formatted_date ''2024'' = ''2024--''" by (simp add: formatted_date_def)
  have one: "process_response digits_int Some Site [?row] = Inr [?entry]"
    by (simp add: process_row_def on_ok_def index_def convert_def formatted_date_def
        digits_int_def is_digit_def digit_val_def)
  note a = normalizer_accepts_any_date_string
    [of ?bad digits_int "Some :: string \<Rightarrow> string option" Site ?entry "''10''" 10 "''200''" 200
      "''2024''" "''shoes''" "[?row]" "[?entry]" IndexError]
  note b = normalizer_accepts_any_date_string
    [of ?bad digits_int "Some :: string \<Rightarrow> string option" Site ?entry "''10''" 10 "''200''" 200
      "''2024''" "''shoes''" "[?row, ?bad]" "[?entry]" IndexError]
  show ?thesis using a b conv fmt one by (simp add: on_ok_def)
qed

subsection \<open>The log, the attempts and the runs of \<open>main\<close>\<close>

lemma relatesD: "relates R m \<Longrightarrow> m s = (r, s') \<Longrightarrow> R s s'"
  by (auto simp: relates_def)

lemma relates_and_then:
  assumes "\<And>a b c. R a b \<Longrightarrow> R b c \<Longrightarrow> R a c" "relates R m" "\<And>x. relates R (f x)"
  shows "relates R (and_then m f)"
  unfolding relates_def
proof (intro allI impI)
  fix s r s'
  assume run: "and_then m f s = (r, s')"
  obtain r1 s1 where m: "m s = (r1, s1)" by (cases "m s") auto
  have p1: "R s s1" using relatesD [OF assms(2) m] .
  show "R s s'"
  proof (cases r1)
    case (Inl e)
    then show ?thesis using run m p1 by (simp add: and_then_def)
  next
    case (Inr x)
    then have "f x s1 = (r, s')" using run m by (simp add: and_then_def)
    then show ?thesis using relatesD [OF assms(3)] p1 assms(1) by blast
  qed
qed

lemma relates_catch:
  assumes "\<And>a b c. R a b \<Longrightarrow> R b c \<Longrightarrow> R a c" "relates R m" "\<And>e. relates R (h e)"
  shows "relates R (catch m h)"
  unfolding relates_def
proof (intro allI impI)
  fix s r s'
  assume run: "catch m h s = (r, s')"
  obtain r1 s1 where m: "m s = (r1, s1)" by (cases "m s") auto
  have p1: "R s s1" using relatesD [OF assms(2) m] .
  show "R s s'"
  proof (cases r1)
    case (Inr x)
    then show ?thesis using run m p1 by (simp add: catch_def)
  next
    case (Inl e)
    then have "h e s1 = (r, s')" using run m by (simp add: catch_def)
    then show ?thesis using relatesD [OF assms(3)] p1 assms(1) by blast
  qed
qed

lemma relates_keeps:
  "keeps obs m \<Longrightarrow> (\<And>s s'. obs s' = obs s \<Longrightarrow> R s s') \<Longrightarrow> relates R m"
  unfolding relates_def keeps_def by blast

lemma log_extends_refl: "log_extends s s" by (simp add: log_extends_def)

lemma log_extends_trans: "log_extends a b \<Longrightarrow> log_extends b c \<Longrightarrow> log_extends a c"
  by (auto simp: log_extends_def)

lemma log_extends_same: "log s' = log s \<Longrightarrow> log_extends s s'" by (simp add: log_extends_def)

lemma log_simps: "log (w\<lparr>faults := bs\<rparr>) = log w" "log (w\<lparr>api_calls := k\<rparr>) = log w"
  by simp_all

lemma ext_pure:
  "relates log_extends (ret x)" "relates log_extends (raise e)" "relates log_extends (lift v)"
  "relates log_extends (gets g)" "relates log_extends (logger l)"
  "relates log_extends (fallible e)" "relates log_extends execute" "relates log_extends commit"
  "relates log_extends (check_unique d)"
  by (auto simp: relates_def prim_eq logger_def log_extends_def fallible_def execute_def commit_def check_unique_def
      split: list.splits if_splits)

lemmas ext_and_then = relates_and_then [of log_extends, OF log_extends_trans]
lemmas ext_catch = relates_catch [of log_extends, OF log_extends_trans]

lemma ext_modify: "(\<And>s. log (f s) = log s) \<Longrightarrow> relates log_extends (modify f)"
  by (auto simp: relates_def prim_eq log_extends_def)

lemma ext_get_or_create: "relates log_extends (get_or_create_date_id d)"
  unfolding get_or_create_date_id_def get_or_create_date_id_try_def insert_date_def
  by (intro ext_and_then ext_catch ext_pure ext_modify)
     (auto split: option.splits intro!: ext_and_then ext_pure ext_modify)

lemma ext_create: "relates log_extends (create_date_entries ds m)"
  by (induction ds arbitrary: m) (auto intro!: ext_and_then ext_pure ext_get_or_create)

lemma ext_insert_rows: "relates log_extends (insert_rows params rows p)"
  by (induction rows arbitrary: p) (auto intro!: ext_and_then ext_pure)

lemma ext_save_data_try: "relates log_extends (save_data_try order data)"
  unfolding save_data_try_def insert_facts_def commit_facts_def export_csv_def to_csv_def
  by (intro ext_and_then ext_pure ext_create ext_insert_rows)
     (auto split: prod.splits intro!: ext_and_then ext_pure ext_modify)

lemma ext_save_data: "relates log_extends (save_data order data)"
  unfolding save_data_def by (intro ext_catch ext_and_then ext_pure ext_save_data_try)

lemma ext_retry: "relates log_extends f \<Longrightarrow> relates log_extends (retry n f)"
  by (induction n) (auto intro!: ext_catch ext_pure)

lemma ext_fetch: "relates log_extends (fetch_ga4_data env a b)"
  unfolding fetch_ga4_data_def fetch_attempt_def
  by (intro ext_retry ext_and_then ext_catch ext_pure ext_modify) simp_all

lemma keeps_insert_rows:
  "(\<And>w bs. obs (w\<lparr>faults := bs\<rparr>) = obs w) \<Longrightarrow> keeps obs (insert_rows params rows pending)"
  by (induction rows arbitrary: pending)
     (auto intro!: keeps_and_then keeps_pure keeps_fallible simp: execute_def)

lemma keeps_insert_facts:
  "(\<And>w bs. obs (w\<lparr>faults := bs\<rparr>) = obs w) \<Longrightarrow> keeps obs (insert_facts m data)"
  unfolding insert_facts_def by (intro keeps_and_then keeps_insert_rows keeps_pure)

lemma keeps_log_commit_facts: "keeps log (commit_facts p)"
  unfolding commit_facts_def commit_def
  by (cases p) (auto intro!: keeps_and_then keeps_fallible keeps_modify)

lemma keeps_log_export: "keeps log (export_csv data)"
  unfolding export_csv_def to_csv_def
  by (intro keeps_and_then keeps_fallible keeps_modify) simp_all

lemma keeps_startup:
  assumes "\<And>w bs. obs (w\<lparr>faults := bs\<rparr>) = obs w" "\<And>w l. obs (w\<lparr>log := l\<rparr>) = obs w"
  shows "keeps obs startup"
  unfolding startup_def init_db_def execute_def commit_def logger_def
  by (intro keeps_and_then keeps_fallible keeps_modify assms)

lemma keeps_get_last_date:
  assumes "\<And>w bs. obs (w\<lparr>faults := bs\<rparr>) = obs w" "\<And>w l. obs (w\<lparr>log := l\<rparr>) = obs w"
  shows "keeps obs get_last_date"
  unfolding get_last_date_def get_last_date_try_def execute_def logger_def
  by (intro keeps_and_then keeps_catch keeps_fallible keeps_modify keeps_pure assms)
     (auto intro!: keeps_pure keeps_and_then split: option.splits)

lemma save_data_logs:
  assumes "save_data order data v = (r, v')"
  shows "\<exists>l. log v' = log v @ l
     \<and> ((\<exists>n. Info_Successfully_saved n \<in> set l) \<or> (\<exists>e. Error_Data_save_failed e \<in> set l))"
proof -
  obtain r1 v1 where t: "save_data_try order data v = (r1, v1)"
    by (cases "save_data_try order data v") auto
  show ?thesis
  proof (cases r1)
    case (Inl e)
    then have "v' = v1\<lparr>log := log v1 @ [Error_Data_save_failed e]\<rparr>"
      using assms t
      by (simp add: save_data_def catch_def and_then_def logger_def modify_def raise_def)
    moreover obtain l where "log v1 = log v @ l"
      using relatesD [OF ext_save_data_try t] by (auto simp: log_extends_def)
    ultimately show ?thesis by (intro exI [of _ "l @ [Error_Data_save_failed e]"]) auto
  next
    case (Inr u)
    then have v': "v' = v1" using assms t by (simp add: save_data_def catch_def)
    from t Inr obtain ds m s1 p s2 s3 n s4 where
      create: "create_date_entries ds Map.empty v = (Inr m, s1)" and
      insert: "insert_facts m data s1 = (Inr p, s2)" and
      commit: "commit_facts p s2 = (Inr (), s3)" and
      logged: "logger (Info_Successfully_saved n) s3 = (Inr (), s4)" and
      export: "export_csv data s4 = (Inr u, v1)"
      unfolding save_data_try_def by (auto simp: and_then_Inr lift_def)
    obtain l where 1: "log s1 = log v @ l"
      using relatesD [OF ext_create create] by (auto simp: log_extends_def)
    have 2: "log s2 = log s1" using keepsD [OF keeps_insert_facts insert, of log] by simp
    have 3: "log s3 = log s2" using keepsD [OF keeps_log_commit_facts commit] .
    have 4: "log s4 = log s3 @ [Info_Successfully_saved n]"
      using logged by (auto simp: logger_def modify_def)
    have 5: "log v1 = log s4" using keepsD [OF keeps_log_export export] .
    show ?thesis using v' 1 2 3 4 5
      by (intro exI [of _ "l @ [Info_Successfully_saved n]"]) auto
  qed
qed

lemma fetch_attempt_Inl:
  "report env a b (Suc (api_calls w)) = Inl e \<Longrightarrow>
   fetch_attempt env a b w =
     (Inl e, w\<lparr>api_calls := Suc (api_calls w), log := log w @ [Error_GA4_data_fetch_failed e]\<rparr>)"
  by (simp add: fetch_attempt_def and_then_def modify_def gets_def catch_def lift_def logger_def
      raise_def)

lemma fetch_attempt_Inr:
  "report env a b (Suc (api_calls w)) = Inr d \<Longrightarrow>
   fetch_attempt env a b w = (Inr d, w\<lparr>api_calls := Suc (api_calls w)\<rparr>)"
  by (simp add: fetch_attempt_def and_then_def modify_def gets_def catch_def lift_def)

lemma fetch_attempt_calls:
  "fetch_attempt env a b w = (r, w') \<Longrightarrow> api_calls w' = Suc (api_calls w)"
  by (cases "report env a b (Suc (api_calls w))")
     (auto simp: fetch_attempt_Inl fetch_attempt_Inr)

lemma retry_calls:
  "retry n (fetch_attempt env a b) w = (r, w') \<Longrightarrow> api_calls w' \<le> api_calls w + n"
proof (induction n arbitrary: w)
  case 0
  then show ?case by (simp add: raise_def)
next
  case (Suc n)
  obtain r1 w1 where a: "fetch_attempt env a b w = (r1, w1)"
    by (cases "fetch_attempt env a b w") auto
  have c: "api_calls w1 = Suc (api_calls w)" using fetch_attempt_calls [OF a] .
  show ?case
  proof (cases r1)
    case (Inr d)
    then show ?thesis using Suc.prems a c by (simp add: catch_def)
  next
    case (Inl e)
    then have "retry n (fetch_attempt env a b) w1 = (r, w')"
      using Suc.prems a by (simp add: catch_def)
    from Suc.IH [OF this] show ?thesis using c by simp
  qed
qed

lemma fetch_exhausted:
  assumes "\<forall>k. api_calls w < k \<and> k \<le> api_calls w + 3 \<longrightarrow> (\<exists>e. report env a b k = Inl e)"
  shows "\<exists>e1 e2 e3. fetch_ga4_data env a b w =
     (Inl RetryError, w\<lparr>api_calls := api_calls w + 3,
        log := log w @ [Error_GA4_data_fetch_failed e1, Error_GA4_data_fetch_failed e2,
                        Error_GA4_data_fetch_failed e3]\<rparr>)"
proof -
  obtain e1 where 1: "report env a b (Suc (api_calls w)) = Inl e1" using assms by force
  obtain e2 where 2: "report env a b (Suc (Suc (api_calls w))) = Inl e2" using assms by force
  obtain e3 where 3: "report env a b (Suc (Suc (Suc (api_calls w)))) = Inl e3"
    using assms by force
  let ?w1 = "w\<lparr>api_calls := Suc (api_calls w),
               log := log w @ [Error_GA4_data_fetch_failed e1]\<rparr>"
  let ?w2 = "?w1\<lparr>api_calls := Suc (api_calls ?w1),
               log := log ?w1 @ [Error_GA4_data_fetch_failed e2]\<rparr>"
  have a1: "fetch_attempt env a b w = (Inl e1, ?w1)" using fetch_attempt_Inl [OF 1] .
  have a2: "fetch_attempt env a b ?w1 = (Inl e2, ?w2)"
    using fetch_attempt_Inl [of env a b ?w1 e2] 2 by simp
  have a3: "fetch_attempt env a b ?w2 = (Inl e3, ?w2\<lparr>api_calls := Suc (api_calls ?w2),
               log := log ?w2 @ [Error_GA4_data_fetch_failed e3]\<rparr>)"
    using fetch_attempt_Inl [of env a b ?w2 e3] 3 by simp
  have "fetch_ga4_data env a b w =
     (Inl RetryError, w\<lparr>api_calls := api_calls w + 3,
        log := log w @ [Error_GA4_data_fetch_failed e1, Error_GA4_data_fetch_failed e2,
                        Error_GA4_data_fetch_failed e3]\<rparr>)"
    using a1 a2 a3
    by (simp add: fetch_ga4_data_def numeral_3_eq_3 catch_def raise_def)
  then show ?thesis by blast
qed

lemma main_stages:
  assumes "startup w = (Inr (), w1)" "get_last_date w1 = (Inr last_date, w2)"
    "fetch_window last_date (today env) = Inr (s, e)"
  shows "main env w =
     (case run_window env s e w2 of
        (Inl err, w3) \<Rightarrow> (1, w3\<lparr>log := log w3 @ [Error_Pipeline_failed err]\<rparr>)
      | (Inr u, w3) \<Rightarrow> (0, w3))"
  using assms by (simp add: main_def main_try_def and_then_def lift_def)

lemma stages_keep:
  assumes "startup w = (Inr (), w1)" "get_last_date w1 = (Inr last_date, w2)"
  shows "store w2 = store w \<and> api_calls w2 = api_calls w"
  using keepsD [OF keeps_startup assms(1), of store] keepsD [OF keeps_startup assms(1), of api_calls]
    keepsD [OF keeps_get_last_date assms(2), of store]
    keepsD [OF keeps_get_last_date assms(2), of api_calls]
  by (simp add: store_simps)

lemma ext_run_window_rest:
  "relates log_extends
     (and_then (fetch_ga4_data env a b) (\<lambda>data.
        if df_users data = [] \<and> df_content data = [] \<and> df_site data = []
        then logger Info_No_data_returned
        else and_then (save_data (set_order env) data) (\<lambda>_. logger Info_Pipeline_completed)))"
  by (intro ext_and_then ext_fetch) (auto intro!: ext_and_then ext_pure ext_save_data)

lemma example_startup:
  "startup (empty_world\<lparr>dates := ds, date_seq := n\<rparr>)
     = (Inr (), empty_world\<lparr>dates := ds, date_seq := n,
          log := [Info_Starting, Info_Database_initialized]\<rparr>)"
  by (simp add: run_defs)

lemma report_frames:
  assumes "report env a b k = Inr data" "api env a b k = Inr (u, c, s)"
  shows "length (df_users data) = length u \<and> length (df_content data) = length c
       \<and> length (df_site data) = length s"
proof -
  from assms obtain du dc dsi where
    1: "process_response (int_of env) (float_of env) User u = Inr du" and
    2: "process_response (int_of env) (float_of env) Content c = Inr dc" and
    3: "process_response (int_of env) (float_of env) Site s = Inr dsi" and
    d: "data = \<lparr>df_users = du, df_content = dc, df_site = dsi\<rparr>"
    by (auto simp: report_def on_ok_def split: sum.splits)
  show ?thesis
    using d list_all2_lengthD [OF process_response_rows [OF 1]]
      list_all2_lengthD [OF process_response_rows [OF 2]]
      list_all2_lengthD [OF process_response_rows [OF 3]]
    by simp
qed

lemma save_data_empty_frame:
  assumes "df_users data = [] \<or> df_content data = [] \<or> df_site data = []"
  shows "save_data order data w = (Inl KeyError, w\<lparr>log := log w @ [Error_Data_save_failed KeyError]\<rparr>)"
proof -
  have "collect_dates data = Inl KeyError"
    using assms by (auto simp: collect_dates_def column_date_def on_ok_def)
  then show ?thesis
    by (simp add: save_data_def save_data_try_def catch_def and_then_def lift_def logger_def
        modify_def raise_def)
qed

text \<open>
  C4. When a last ingested date \<open>D\<close> exists and the day after it is a date, the
  window is from that day to today; when there is none and the day 30 days before today
  is a date, the window is from that day to today. In a run of \<open>main\<close> whose
  start-up succeeded, the window ends today; when its start is after its end, the run
  logs that there is nothing to fetch and ends with status 0, having made no attempt
  against the API and changed nothing that is stored; otherwise the next thing the run
  logs is the fetch of exactly this window.
\<close>

theorem fetch_window_computation:
  "(date_add D 1 = Inr s \<longrightarrow> fetch_window (Some D) t = Inr (s, t))
   \<and> (date_add t (- 30) = Inr s \<longrightarrow> fetch_window None t = Inr (s, t))
   \<and> (startup w = (Inr (), w1) \<and> get_last_date w1 = (Inr last_date, w2)
        \<and> fetch_window last_date (today env) = Inr (a, b)
      \<longrightarrow> b = today env
        \<and> (date_gt a b \<longrightarrow>
             main env w = (0, w2\<lparr>log := log w2 @ [Info_No_new_data_to_fetch]\<rparr>)
             \<and> store w2 = store w \<and> api_calls w2 = api_calls w)
        \<and> (\<not> date_gt a b \<longrightarrow>
             (\<exists>l. log (snd (main env w))
                = log w2 @ Info_Fetching_data (strftime a) (strftime b) # l)))"
proof -
  have 1: "date_add D 1 = Inr s \<longrightarrow> fetch_window (Some D) t = Inr (s, t)"
    by (simp add: fetch_window_def on_ok_def)
  have 2: "date_add t (- 30) = Inr s \<longrightarrow> fetch_window None t = Inr (s, t)"
    by (simp add: fetch_window_def on_ok_def)
  have 3: "b = today env
        \<and> (date_gt a b \<longrightarrow>
             main env w = (0, w2\<lparr>log := log w2 @ [Info_No_new_data_to_fetch]\<rparr>)
             \<and> store w2 = store w \<and> api_calls w2 = api_calls w)
        \<and> (\<not> date_gt a b \<longrightarrow>
             (\<exists>l. log (snd (main env w))
                = log w2 @ Info_Fetching_data (strftime a) (strftime b) # l))"
    if st: "startup w = (Inr (), w1)" and gl: "get_last_date w1 = (Inr last_date, w2)"
      and fw: "fetch_window last_date (today env) = Inr (a, b)"
  proof -
    have b: "b = today env"
      using fw by (auto simp: fetch_window_def on_ok_def split: sum.splits)
    have m: "main env w =
     (case run_window env a b w2 of
        (Inl err, w3) \<Rightarrow> (1, w3\<lparr>log := log w3 @ [Error_Pipeline_failed err]\<rparr>)
      | (Inr u, w3) \<Rightarrow> (0, w3))"
      using main_stages [OF st gl fw] .
    have skip: "main env w = (0, w2\<lparr>log := log w2 @ [Info_No_new_data_to_fetch]\<rparr>)
             \<and> store w2 = store w \<and> api_calls w2 = api_calls w" if "date_gt a b"
      using that m stages_keep [OF st gl]
      by (simp add: run_window_def logger_def modify_def)
    have go: "\<exists>l. log (snd (main env w))
                = log w2 @ Info_Fetching_data (strftime a) (strftime b) # l" if "\<not> date_gt a b"
    proof -
      let ?w = "w2\<lparr>log := log w2 @ [Info_Fetching_data (strftime a) (strftime b)]\<rparr>"
      let ?rest = "and_then (fetch_ga4_data env (strftime a) (strftime b)) (\<lambda>data.
        if df_users data = [] \<and> df_content data = [] \<and> df_site data = []
        then logger Info_No_data_returned
        else and_then (save_data (set_order env) data) (\<lambda>_. logger Info_Pipeline_completed))"
      obtain r3 w3 where r: "?rest ?w = (r3, w3)" by (cases "?rest ?w") auto
      have rw: "run_window env a b w2 = (r3, w3)"
        using that r by (simp add: run_window_def and_then_def logger_def modify_def)
      obtain l where l: "log w3 = log ?w @ l"
        using relatesD [OF ext_run_window_rest r] by (auto simp: log_extends_def)
      show ?thesis
      proof (cases r3)
        case (Inl err)
        then show ?thesis using m rw l by (intro exI [of _ "l @ [Error_Pipeline_failed err]"]) simp
      next
        case (Inr u)
        then show ?thesis using m rw l by (intro exI [of _ l]) simp
      qed
    qed
    show ?thesis using b skip go by blast
  qed
  show ?thesis using 1 2 3 by blast
qed

text \<open>
  Instances, for a run on the second of January 2024: with that day as the last date
  the window starts on the third and the run is skipped; on the empty dimension the
  window starts on the third of December 2023 and is fetched.
\<close>

theorem fetch_window_computation_witness:
  "date_add (Date 2024 1 2) 1 = Inr (Date 2024 1 3)
   \<and> fetch_window (Some (Date 2024 1 2)) (Date 2024 1 2) = Inr (Date 2024 1 3, Date 2024 1 2)
   \<and> date_add (Date 2024 1 2) (- 30) = Inr (Date 2023 12 3)
   \<and> fetch_window None (Date 2024 1 2) = Inr (Date 2023 12 3, Date 2024 1 2)
   \<and> date_gt (Date 2024 1 3) (Date 2024 1 2)
   \<and> main example_env (empty_world\<lparr>dates := [(1, ''2024-01-02'')], date_seq := 1\<rparr>)
       = (0, empty_world\<lparr>dates := [(1, ''2024-01-02'')], date_seq := 1,
            log := [Info_Starting, Info_Database_initialized, Info_No_new_data_to_fetch]\<rparr>)
   \<and> \<not> date_gt (Date 2023 12 3) (Date 2024 1 2)
   \<and> (\<exists>l. log (snd (main example_env empty_world))
         = [Info_Starting, Info_Database_initialized,
            Info_Fetching_data ''2023-12-03'' ''2024-01-02''] @ l)"
proof -
  let ?w = "empty_world\<lparr>dates := [(1, ''2024-01-02'')], date_seq := 1\<rparr> :: string world"
  let ?w1 = "empty_world\<lparr>dates := [(1, ''2024-01-02'')], date_seq := 1,
          log := [Info_Starting, Info_Database_initialized]\<rparr> :: string world"
  let ?v1 = "empty_world\<lparr>log := [Info_Starting, Info_Database_initialized]\<rparr> :: string world"
  have a1: "date_add (Date 2024 1 2) 1 = Inr (Date 2024 1 3)" by (simp add: date_defs)
  have a2: "date_add (Date 2024 1 2) (- 30) = Inr (Date 2023 12 3)" by (simp add: date_defs)
  have s1: "startup ?w = (Inr (), ?w1)" using example_startup [where ds = "[(1, ''2024-01-02'')]" and n = 1] .
  have g1: "get_last_date ?w1 = (Inr (Some (Date 2024 1 2)), ?w1)"
    by (simp add: run_defs parse_defs)
  have t: "today example_env = Date 2024 1 2" by (simp add: example_env_def)
  have f1: "fetch_window (Some (Date 2024 1 2)) (today example_env)
      = Inr (Date 2024 1 3, Date 2024 1 2)"
    using a1 t by (simp add: fetch_window_def on_ok_def)
  have gt: "date_gt (Date 2024 1 3) (Date 2024 1 2)" by (simp add: date_gt_def)
  have s2: "startup empty_world = (Inr (), ?v1)"
    using example_startup [where ds = "[]" and n = 0] by (simp add: empty_world_def)
  have g2: "get_last_date ?v1 = (Inr None, ?v1)" by (simp add: run_defs)
  have f2: "fetch_window None (today example_env) = Inr (Date 2023 12 3, Date 2024 1 2)"
    using a2 t by (simp add: fetch_window_def on_ok_def)
  have ngt: "\<not> date_gt (Date 2023 12 3) (Date 2024 1 2)" by (simp add: date_gt_def)
  have fmt: "strftime (Date 2023 12 3) = ''2023-12-03'' \<and> strftime (Date 2024 1 2) = ''2024-01-02''"
    by (simp add: strftime_def pad2_def pad4_def digit_char_def)
  note skip = fetch_window_computation
    [where D = "Date 2024 1 2" and s = "Date 2024 1 3" and t = "Date 2024 1 2" and w = ?w
      and ?w1.0 = ?w1 and last_date = "Some (Date 2024 1 2)" and ?w2.0 = ?w1
      and env = example_env and a = "Date 2024 1 3" and b = "Date 2024 1 2"]
  note go = fetch_window_computation
    [where D = "Date 2024 1 2" and s = "Date 2023 12 3" and t = "Date 2024 1 2"
      and w = empty_world and ?w1.0 = ?v1 and last_date = None and ?w2.0 = ?v1
      and env = example_env and a = "Date 2023 12 3" and b = "Date 2024 1 2"]
  have r1: "main example_env ?w
       = (0, empty_world\<lparr>dates := [(1, ''2024-01-02'')], date_seq := 1,
            log := [Info_Starting, Info_Database_initialized, Info_No_new_data_to_fetch]\<rparr>)"
    using skip s1 g1 f1 [unfolded t] gt t by (simp add: empty_world_def)
  have r2: "\<exists>l. log (snd (main example_env empty_world))
         = [Info_Starting, Info_Database_initialized,
            Info_Fetching_data ''2023-12-03'' ''2024-01-02''] @ l"
    using go s2 g2 f2 [unfolded t] ngt fmt t by (simp add: empty_world_def)
  show ?thesis using a1 a2 f1 f2 t gt ngt r1 r2 by simp
qed

text \<open>
  C7. A call of \<open>fetch_ga4_data\<close> makes at most 3 attempts. When the three
  attempts that follow fail, the call raises \<open>RetryError\<close> after exactly 3 attempts.
  In a run of \<open>main\<close> that reaches the fetch and whose three attempts fail, the
  exception reaches \<open>main\<close>, which logs it and ends with status 1: after the entry
  for the window the log has the three failed attempts and the failure of the pipeline,
  and nothing that is stored has changed. The writer was not called, for every call of
  \<open>save_data\<close> leaves an entry of its own in the log, for its success or for its
  failure.
\<close>

theorem fetch_retry_exhaustion:
  "(fetch_ga4_data env a b w = (r, w') \<longrightarrow> api_calls w' \<le> api_calls w + 3)
   \<and> ((\<forall>k. api_calls w < k \<and> k \<le> api_calls w + 3 \<longrightarrow> (\<exists>e. report env a b k = Inl e))
        \<longrightarrow> (\<exists>e1 e2 e3. fetch_ga4_data env a b w =
              (Inl RetryError, w\<lparr>api_calls := api_calls w + 3,
                 log := log w @ [Error_GA4_data_fetch_failed e1, Error_GA4_data_fetch_failed e2,
                                 Error_GA4_data_fetch_failed e3]\<rparr>)))
   \<and> (startup w0 = (Inr (), w1) \<and> get_last_date w1 = (Inr last_date, w2)
        \<and> fetch_window last_date (today env) = Inr (s, e) \<and> \<not> date_gt s e
        \<and> (\<forall>k. api_calls w2 < k \<and> k \<le> api_calls w2 + 3
               \<longrightarrow> (\<exists>err. report env (strftime s) (strftime e) k = Inl err))
      \<longrightarrow> (\<exists>e1 e2 e3. main env w0 =
             (1, w2\<lparr>api_calls := api_calls w2 + 3,
                   log := log w2 @ [Info_Fetching_data (strftime s) (strftime e),
                     Error_GA4_data_fetch_failed e1, Error_GA4_data_fetch_failed e2,
                     Error_GA4_data_fetch_failed e3, Error_Pipeline_failed RetryError]\<rparr>))
          \<and> store w2 = store w0)
   \<and> (save_data order data v = (r', v') \<longrightarrow>
        (\<exists>l. log v' = log v @ l
           \<and> ((\<exists>n. Info_Successfully_saved n \<in> set l) \<or> (\<exists>x. Error_Data_save_failed x \<in> set l))))"
proof -
  have 1: "fetch_ga4_data env a b w = (r, w') \<longrightarrow> api_calls w' \<le> api_calls w + 3"
    using retry_calls [of 3 env a b w r w'] by (simp add: fetch_ga4_data_def)
  have 2: "(\<forall>k. api_calls w < k \<and> k \<le> api_calls w + 3 \<longrightarrow> (\<exists>e. report env a b k = Inl e))
        \<longrightarrow> (\<exists>e1 e2 e3. fetch_ga4_data env a b w =
              (Inl RetryError, w\<lparr>api_calls := api_calls w + 3,
                 log := log w @ [Error_GA4_data_fetch_failed e1, Error_GA4_data_fetch_failed e2,
                                 Error_GA4_data_fetch_failed e3]\<rparr>))"
    using fetch_exhausted [of w env a b] by blast
  have 3: "(\<exists>e1 e2 e3. main env w0 =
             (1, w2\<lparr>api_calls := api_calls w2 + 3,
                   log := log w2 @ [Info_Fetching_data (strftime s) (strftime e),
                     Error_GA4_data_fetch_failed e1, Error_GA4_data_fetch_failed e2,
                     Error_GA4_data_fetch_failed e3, Error_Pipeline_failed RetryError]\<rparr>))
          \<and> store w2 = store w0"
    if st: "startup w0 = (Inr (), w1)" and gl: "get_last_date w1 = (Inr last_date, w2)"
      and fw: "fetch_window last_date (today env) = Inr (s, e)" and go: "\<not> date_gt s e"
      and fail: "\<forall>k. api_calls w2 < k \<and> k \<le> api_calls w2 + 3
               \<longrightarrow> (\<exists>err. report env (strftime s) (strftime e) k = Inl err)"
  proof -
    let ?w = "w2\<lparr>log := log w2 @ [Info_Fetching_data (strftime s) (strftime e)]\<rparr>"
    have "\<forall>k. api_calls ?w < k \<and> k \<le> api_calls ?w + 3
               \<longrightarrow> (\<exists>err. report env (strftime s) (strftime e) k = Inl err)"
      using fail by simp
    from fetch_exhausted [OF this] obtain e1 e2 e3 where
      f: "fetch_ga4_data env (strftime s) (strftime e) ?w =
        (Inl RetryError, ?w\<lparr>api_calls := api_calls ?w + 3,
           log := log ?w @ [Error_GA4_data_fetch_failed e1, Error_GA4_data_fetch_failed e2,
                           Error_GA4_data_fetch_failed e3]\<rparr>)"
      by blast
    have "main env w0 =
             (1, w2\<lparr>api_calls := api_calls w2 + 3,
                   log := log w2 @ [Info_Fetching_data (strftime s) (strftime e),
                     Error_GA4_data_fetch_failed e1, Error_GA4_data_fetch_failed e2,
                     Error_GA4_data_fetch_failed e3, Error_Pipeline_failed RetryError]\<rparr>)"
      using main_stages [OF st gl fw] go f
      by (simp add: run_window_def and_then_def logger_def modify_def)
    then show ?thesis using stages_keep [OF st gl] by blast
  qed
  have 4: "save_data order data v = (r', v') \<longrightarrow>
        (\<exists>l. log v' = log v @ l
           \<and> ((\<exists>n. Info_Successfully_saved n \<in> set l) \<or> (\<exists>x. Error_Data_save_failed x \<in> set l)))"
    using save_data_logs [of order data v r' v'] by blast
  show ?thesis using 1 2 3 4 by blast
qed

text \<open>
  An instance: the run on the empty database with the API that fails at every attempt.
\<close>

theorem fetch_retry_exhaustion_witness:
  "fst (main failing_env empty_world) = 1
   \<and> store (snd (main failing_env empty_world)) = store empty_world
   \<and> api_calls (snd (main failing_env empty_world)) = 3
   \<and> api_calls (snd (fetch_ga4_data failing_env ''2023-12-03'' ''2024-01-02'' empty_world)) \<le> 3"
proof -
  let ?v1 = "empty_world\<lparr>log := [Info_Starting, Info_Database_initialized]\<rparr> :: string world"
  let ?s = "Date 2023 12 3"
  let ?e = "Date 2024 1 2"
  have t: "today failing_env = ?e" by (simp add: failing_env_def example_env_def)
  have s2: "startup empty_world = (Inr (), ?v1)"
    using example_startup [where ds = "[]" and n = 0] by (simp add: empty_world_def)
  have g2: "get_last_date ?v1 = (Inr None, ?v1)" by (simp add: run_defs)
  have f2: "fetch_window None (today failing_env) = Inr (?s, ?e)"
    unfolding t by (simp add: date_defs on_ok_def)
  have ngt: "\<not> date_gt ?s ?e" by (simp add: date_gt_def)
  have rep: "\<forall>k. api_calls ?v1 < k \<and> k \<le> api_calls ?v1 + 3
      \<longrightarrow> (\<exists>err. report failing_env (strftime ?s) (strftime ?e) k = Inl err)"
    by (simp add: report_def failing_env_def on_ok_def)
  obtain r w' where
    fr: "fetch_ga4_data failing_env ''2023-12-03'' ''2024-01-02'' empty_world = (r, w')"
    by (cases "fetch_ga4_data failing_env ''2023-12-03'' ''2024-01-02''
          (empty_world :: string world)") auto
  note inst = fetch_retry_exhaustion
    [where env = failing_env and a = "''2023-12-03''" and b = "''2024-01-02''"
      and w = empty_world and r = r and w' = w'
      and ?w0.0 = empty_world and ?w1.0 = ?v1 and last_date = None and ?w2.0 = ?v1
      and s = ?s and e = ?e]
  have 1: "api_calls w' \<le> api_calls (empty_world :: string world) + 3"
    using inst [THEN conjunct1] fr by blast
  have "(\<exists>e1 e2 e3. main failing_env empty_world =
             (1, ?v1\<lparr>api_calls := api_calls ?v1 + 3,
                   log := log ?v1 @ [Info_Fetching_data (strftime ?s) (strftime ?e),
                     Error_GA4_data_fetch_failed e1, Error_GA4_data_fetch_failed e2,
                     Error_GA4_data_fetch_failed e3, Error_Pipeline_failed RetryError]\<rparr>))
          \<and> store ?v1 = store (empty_world :: string world)"
    using inst [THEN conjunct2, THEN conjunct2, THEN conjunct1] s2 g2 f2 ngt rep by blast
  then obtain e1 e2 e3 where m: "main failing_env empty_world =
             (1, ?v1\<lparr>api_calls := api_calls ?v1 + 3,
                   log := log ?v1 @ [Info_Fetching_data (strftime ?s) (strftime ?e),
                     Error_GA4_data_fetch_failed e1, Error_GA4_data_fetch_failed e2,
                     Error_GA4_data_fetch_failed e3, Error_Pipeline_failed RetryError]\<rparr>)"
    by blast
  show ?thesis using 1 m fr by (simp add: store_def facts_def empty_world_def)
qed

text \<open>
  C10. A frame has as many entries as its category has rows, so a category without rows
  gives an empty frame. When one of the three frames is empty, \<open>save_data\<close> raises
  \<open>KeyError\<close> while it collects the dates: it logs the failure and leaves everything
  else as it was, with no storage operation attempted. In a run of \<open>main\<close> whose
  fetch returns such data with at least one frame that is not empty, the save is not
  skipped, the \<open>KeyError\<close> reaches \<open>main\<close>, and the run ends with status 1 with
  nothing stored.
\<close>

theorem empty_category_fails_save:
  "(report env a b k = Inr data \<and> api env a b k = Inr (u, c, s) \<longrightarrow>
      length (df_users data) = length u \<and> length (df_content data) = length c
      \<and> length (df_site data) = length s)
   \<and> (df_users data = [] \<or> df_content data = [] \<or> df_site data = [] \<longrightarrow>
        save_data order data w
          = (Inl KeyError, w\<lparr>log := log w @ [Error_Data_save_failed KeyError]\<rparr>))
   \<and> (startup w0 = (Inr (), w1) \<and> get_last_date w1 = (Inr last_date, w2)
        \<and> fetch_window last_date (today env) = Inr (start_date, end_date)
        \<and> \<not> date_gt start_date end_date
        \<and> fetch_ga4_data env (strftime start_date) (strftime end_date)
             (w2\<lparr>log := log w2 @ [Info_Fetching_data (strftime start_date) (strftime end_date)]\<rparr>)
            = (Inr data, w3)
        \<and> (df_users data = [] \<or> df_content data = [] \<or> df_site data = [])
        \<and> (df_users data \<noteq> [] \<or> df_content data \<noteq> [] \<or> df_site data \<noteq> [])
      \<longrightarrow> main env w0
            = (1, w3\<lparr>log := log w3 @ [Error_Data_save_failed KeyError,
                                       Error_Pipeline_failed KeyError]\<rparr>)
          \<and> store w3 = store w0)"
proof -
  have 1: "report env a b k = Inr data \<and> api env a b k = Inr (u, c, s) \<longrightarrow>
      length (df_users data) = length u \<and> length (df_content data) = length c
      \<and> length (df_site data) = length s"
    using report_frames [of env a b k data u c s] by blast
  have 2: "df_users data = [] \<or> df_content data = [] \<or> df_site data = [] \<longrightarrow>
        save_data order data w
          = (Inl KeyError, w\<lparr>log := log w @ [Error_Data_save_failed KeyError]\<rparr>)"
    using save_data_empty_frame [of data order w] by blast
  have 3: "main env w0
            = (1, w3\<lparr>log := log w3 @ [Error_Data_save_failed KeyError,
                                       Error_Pipeline_failed KeyError]\<rparr>)
          \<and> store w3 = store w0"
    if st: "startup w0 = (Inr (), w1)" and gl: "get_last_date w1 = (Inr last_date, w2)"
      and fw: "fetch_window last_date (today env) = Inr (start_date, end_date)"
      and go: "\<not> date_gt start_date end_date"
      and fe: "fetch_ga4_data env (strftime start_date) (strftime end_date)
             (w2\<lparr>log := log w2 @ [Info_Fetching_data (strftime start_date) (strftime end_date)]\<rparr>)
            = (Inr data, w3)"
      and em: "df_users data = [] \<or> df_content data = [] \<or> df_site data = []"
      and ne: "df_users data \<noteq> [] \<or> df_content data \<noteq> [] \<or> df_site data \<noteq> []"
  proof -
    have sv: "save_data (set_order env) data w3
        = (Inl KeyError, w3\<lparr>log := log w3 @ [Error_Data_save_failed KeyError]\<rparr>)"
      using save_data_empty_frame [OF em] .
    have "run_window env start_date end_date w2
        = (Inl KeyError, w3\<lparr>log := log w3 @ [Error_Data_save_failed KeyError]\<rparr>)"
      using go fe ne sv by (auto simp: run_window_def and_then_def logger_def modify_def)
    then have m: "main env w0
            = (1, w3\<lparr>log := log w3 @ [Error_Data_save_failed KeyError,
                                       Error_Pipeline_failed KeyError]\<rparr>)"
      using main_stages [OF st gl fw] by simp
    have "store w3 = store w2"
      using keepsD [OF keeps_store_fetch fe] by (simp add: store_simps)
    then show ?thesis using m stages_keep [OF st gl] by simp
  qed
  show ?thesis using 1 2 3 by blast
qed

text \<open>
  An instance: the run on the empty database with the API that returns rows for the
  engagement and site-search categories and none for the content category.
\<close>

theorem empty_category_fails_save_witness:
  "main partial_env empty_world
     = (1, empty_world\<lparr>api_calls := 1,
          log := [Info_Starting, Info_Database_initialized,
                  Info_Fetching_data ''2023-12-03'' ''2024-01-02'',
                  Error_Data_save_failed KeyError, Error_Pipeline_failed KeyError]\<rparr>)"
proof -
  let ?v1 = "empty_world\<lparr>log := [Info_Starting, Info_Database_initialized]\<rparr> :: string world"
  let ?s = "Date 2023 12 3"
  let ?e = "Date 2024 1 2"
  let ?v2 = "?v1\<lparr>log := log ?v1 @ [Info_Fetching_data (strftime ?s) (strftime ?e)]\<rparr>"
  let ?data = "\<lparr>df_users = [UserEntry ''2024-01-01'' 100 120 ''0.55'' 5 ''42.3''],
     df_content = [], df_site = [SiteEntry ''2024-01-01'' ''shoes'' 10 200]\<rparr> :: string data"
  have t: "today partial_env = ?e" by (simp add: partial_env_def example_env_def)
  have s2: "startup empty_world = (Inr (), ?v1)"
    using example_startup [where ds = "[]" and n = 0] by (simp add: empty_world_def)
  have g2: "get_last_date ?v1 = (Inr None, ?v1)" by (simp add: run_defs)
  have f2: "fetch_window None (today partial_env) = Inr (?s, ?e)"
    unfolding t by (simp add: date_defs on_ok_def)
  have ngt: "\<not> date_gt ?s ?e" by (simp add: date_gt_def)
  have fmt: "strftime ?s = ''2023-12-03''" "strftime ?e = ''2024-01-02''"
    by (simp_all add: strftime_def pad2_def pad4_def digit_char_def)
  have fe: "fetch_ga4_data partial_env (strftime ?s) (strftime ?e) ?v2
      = (Inr ?data, ?v2\<lparr>api_calls := 1\<rparr>)"
    unfolding fmt by (simp add: fetch_defs run_defs)
  have em: "df_users ?data = [] \<or> df_content ?data = [] \<or> df_site ?data = []" by simp
  have ne: "df_users ?data \<noteq> [] \<or> df_content ?data \<noteq> [] \<or> df_site ?data \<noteq> []" by simp
  note inst = empty_category_fails_save
    [where ?w0.0 = empty_world and ?w1.0 = ?v1 and last_date = None and ?w2.0 = ?v1
      and env = partial_env and start_date = ?s and end_date = ?e
      and data = ?data and ?w3.0 = "?v2\<lparr>api_calls := 1\<rparr>"]
  have "main partial_env empty_world
      = (1, (?v2\<lparr>api_calls := 1\<rparr>)\<lparr>log := log (?v2\<lparr>api_calls := 1\<rparr>)
           @ [Error_Data_save_failed KeyError, Error_Pipeline_failed KeyError]\<rparr>)"
    using inst [THEN conjunct2, THEN conjunct2] s2 g2 f2 ngt fe em ne by blast
  then show ?thesis
    by (simp add: strftime_def pad2_def pad4_def digit_char_def empty_world_def)
qed

subsection \<open>Referential integrity\<close>

lemma ref_integrity_dim: "dim s' = dim s \<Longrightarrow> ref_integrity s \<Longrightarrow> ref_integrity s'"
  by (simp add: dim_def facts_def ref_integrity_def)

lemma ref_integrity_store: "store s' = store s \<Longrightarrow> ref_integrity s \<Longrightarrow> ref_integrity s'"
  by (simp add: store_def facts_def ref_integrity_def)

lemma ref_integrity_mono:
  "facts s' = facts s \<Longrightarrow> set (dates s) \<subseteq> set (dates s') \<Longrightarrow> ref_integrity s
     \<Longrightarrow> ref_integrity s'"
proof -
  assume f: "facts s' = facts s" and m: "set (dates s) \<subseteq> set (dates s')"
    and i: "ref_integrity s"
  have "fst ` set (dates s) \<subseteq> fst ` set (dates s')" using m by (rule image_mono)
  then show ?thesis using f i unfolding ref_integrity_iff facts_def by fastforce
qed

lemma create_date_entries_mono:
  "create_date_entries ds m w = (r, w') \<Longrightarrow> set (dates w) \<subseteq> set (dates w')"
proof (induction ds arbitrary: m w)
  case Nil
  then show ?case by (simp add: ret_def)
next
  case (Cons d ds)
  obtain r1 s1 where a: "get_or_create_date_id d w = (r1, s1)"
    by (cases "get_or_create_date_id d w") auto
  have mono: "set (dates w) \<subseteq> set (dates s1)" using get_or_create_mono [OF a] .
  show ?case
  proof (cases r1)
    case (Inl e)
    then show ?thesis using Cons.prems a mono by (simp add: and_then_def)
  next
    case (Inr i)
    then have "create_date_entries ds (m(d \<mapsto> i)) s1 = (r, w')"
      using Cons.prems a by (simp add: and_then_def)
    from Cons.IH [OF this] show ?thesis using mono by blast
  qed
qed

lemma committed_rows:
  assumes inv: "ref_integrity w"
    and create: "create_date_entries ds Map.empty w = (Inr m, s1)"
    and insert: "insert_facts m data s1 = (Inr (pu, pc, ps), s2)"
    and commit: "commit_facts (pu, pc, ps) s2 = (Inr (), s3)"
  shows "ref_integrity s3
       \<and> user_interaction s3 = user_interaction w @ pu
       \<and> content_metrics s3 = content_metrics w @ pc
       \<and> site_data s3 = site_data w @ ps
       \<and> list_all2 (\<lambda>e r. (date_id r, date e) \<in> set (dates s3)) (df_users data) pu
       \<and> list_all2 (\<lambda>e r. (date_id r, date e) \<in> set (dates s3)) (df_content data) pc
       \<and> list_all2 (\<lambda>e r. (date_id r, date e) \<in> set (dates s3)) (df_site data) ps"
proof -
  have m: "\<forall>k v. m k = Some v \<longrightarrow> (v, k) \<in> set (dates s1)"
    and mono: "set (dates w) \<subseteq> set (dates s1)"
    using create_date_entries_map [OF create] by auto
  have f1: "facts s1 = facts w" using keepsD [OF keeps_facts_create create] .
  have s2: "store s2 = store s1" using keepsD [OF keeps_store_insert_facts insert] .
  have s3: "user_interaction s3 = user_interaction s2 @ pu
       \<and> content_metrics s3 = content_metrics s2 @ pc \<and> site_data s3 = site_data s2 @ ps
       \<and> dates s3 = dates s2"
    using commit_facts_Inr [OF commit] by simp
  have dates: "dates s3 = dates s1" using s2 s3 by (auto simp: store_def)
  have tables: "user_interaction s3 = user_interaction w @ pu
       \<and> content_metrics s3 = content_metrics w @ pc \<and> site_data s3 = site_data w @ ps"
    using f1 s2 s3 by (auto simp: store_def facts_def)
  have res: "list_all2 (\<lambda>e r. user_row m e = Inr r) (df_users data) pu
       \<and> list_all2 (\<lambda>e r. content_row m e = Inr r) (df_content data) pc
       \<and> list_all2 (\<lambda>e r. site_row m e = Inr r) (df_site data) ps"
    using insert_facts_result [OF insert] .
  have imp: "(date_id r, date e) \<in> set (dates s3)"
    if "user_row m e = Inr r \<or> content_row m e = Inr r \<or> site_row m e = Inr r" for e r
  proof -
    from that have "m (date e) = Some (date_id r)" by (auto dest: row_date_id)
    then show ?thesis using m dates by simp
  qed
  have r1: "list_all2 (\<lambda>e r. (date_id r, date e) \<in> set (dates s3)) (df_users data) pu"
    by (rule list_all2_mono [OF conjunct1 [OF res]]) (simp add: imp)
  have r2: "list_all2 (\<lambda>e r. (date_id r, date e) \<in> set (dates s3)) (df_content data) pc"
    by (rule list_all2_mono [OF conjunct1 [OF conjunct2 [OF res]]]) (simp add: imp)
  have r3: "list_all2 (\<lambda>e r. (date_id r, date e) \<in> set (dates s3)) (df_site data) ps"
    by (rule list_all2_mono [OF conjunct2 [OF conjunct2 [OF res]]]) (simp add: imp)
  have in_new: "\<And>xs rs r. list_all2 (\<lambda>e r. (date_id r, date e) \<in> set (dates s3)) xs rs
       \<Longrightarrow> r \<in> set rs \<Longrightarrow> date_id r \<in> fst ` set (dates s3)"
    by (drule (1) list_all2_right) force
  have "ref_integrity s3"
    unfolding ref_integrity_iff
  proof
    fix r
    assume "r \<in> set (user_interaction s3) \<union> set (content_metrics s3) \<union> set (site_data s3)"
    then consider
        (old) "r \<in> set (user_interaction w) \<union> set (content_metrics w) \<union> set (site_data w)"
      | (new) "r \<in> set pu \<union> set pc \<union> set ps"
      using tables by auto
    then show "date_id r \<in> fst ` set (dates s3)"
    proof cases
      case old
      then have "date_id r \<in> fst ` set (dates w)" using inv by (auto simp: ref_integrity_iff)
      then show ?thesis using mono dates by auto
    next
      case new
      then show ?thesis
        using r1 r2 r3 in_new [of "df_users data" pu r] in_new [of "df_content data" pc r]
          in_new [of "df_site data" ps r]
        by auto
    qed
  qed
  then show ?thesis using tables r1 r2 r3 by simp
qed

lemma ref_integrity_save_data_try:
  assumes inv: "ref_integrity w" and run: "save_data_try order data w = (r, w')"
  shows "ref_integrity w'"
proof (cases r)
  case (Inr u)
  with run obtain ds m s1 pu pc ps s2 s3 l s4 where
    create: "create_date_entries ds Map.empty w = (Inr m, s1)" and
    insert: "insert_facts m data s1 = (Inr (pu, pc, ps), s2)" and
    commit: "commit_facts (pu, pc, ps) s2 = (Inr (), s3)" and
    logged: "logger l s3 = (Inr (), s4)" and
    export: "export_csv data s4 = (Inr u, w')"
    unfolding save_data_try_def by (auto simp: and_then_Inr lift_def)
  have "ref_integrity s3" using committed_rows [OF inv create insert commit] by simp
  moreover have "dim s4 = dim s3" using keepsD [OF keeps_dim_basic(3) logged] .
  moreover have "dim w' = dim s4" using keepsD [OF keeps_dim_export export] .
  ultimately show ?thesis using ref_integrity_dim by metis
next
  case (Inl e)
  with run consider
      (collect) "lift (collect_dates data) w = (Inl e, w')"
    | (create) ds where "create_date_entries ds Map.empty w = (Inl e, w')"
    | (insert) ds m s1 where "create_date_entries ds Map.empty w = (Inr m, s1)"
        "insert_facts m data s1 = (Inl e, w')"
    | (commit) ds m s1 p s2 where "create_date_entries ds Map.empty w = (Inr m, s1)"
        "insert_facts m data s1 = (Inr p, s2)" "commit_facts p s2 = (Inl e, w')"
    | (export) ds m s1 p s2 s3 s4 l where "create_date_entries ds Map.empty w = (Inr m, s1)"
        "insert_facts m data s1 = (Inr p, s2)" "commit_facts p s2 = (Inr (), s3)"
        "logger l s3 = (Inr (), s4)" "export_csv data s4 = (Inl e, w')"
    unfolding save_data_try_def by (auto simp: and_then_Inl lift_def)
  then show ?thesis
  proof cases
    case collect
    then show ?thesis using inv by (simp add: lift_def)
  next
    case create
    show ?thesis
      using ref_integrity_mono [OF keepsD [OF keeps_facts_create create]
          create_date_entries_mono [OF create] inv] .
  next
    case insert
    have "ref_integrity s1"
      using ref_integrity_mono [OF keepsD [OF keeps_facts_create insert(1)]
          create_date_entries_mono [OF insert(1)] inv] .
    then show ?thesis
      using ref_integrity_store [OF keepsD [OF keeps_store_insert_facts insert(2)]] by blast
  next
    case commit
    have "ref_integrity s1"
      using ref_integrity_mono [OF keepsD [OF keeps_facts_create commit(1)]
          create_date_entries_mono [OF commit(1)] inv] .
    then have "ref_integrity s2"
      using ref_integrity_store [OF keepsD [OF keeps_store_insert_facts commit(2)]] by blast
    then show ?thesis
      using ref_integrity_store [of w' s2] commit_facts_Inl [OF commit(3)] by blast
  next
    case export
    obtain pu pc ps where p: "p = (pu, pc, ps)" by (cases p) auto
    have "ref_integrity s3"
      using committed_rows [OF inv export(1) export(2) [unfolded p] export(3) [unfolded p]]
      by simp
    moreover have "dim s4 = dim s3" using keepsD [OF keeps_dim_basic(3) export(4)] .
    moreover have "dim w' = dim s4" using keepsD [OF keeps_dim_export export(5)] .
    ultimately show ?thesis using ref_integrity_dim by metis
  qed
qed

lemma preserves_integrity_save_data: "preserves ref_integrity (save_data order data)"
  unfolding save_data_def
  apply (intro preserves_catch preserves_and_then
      preserves_keeps [OF keeps_dim_basic(3) ref_integrity_dim]
      preserves_keeps [OF keeps_pure(2) ref_integrity_dim])
  apply (auto simp: preserves_def intro: ref_integrity_save_data_try)
  done

lemma preserves_integrity_main_try: "preserves ref_integrity (main_try env)"
  unfolding main_try_def run_window_def
  apply (intro preserves_and_then
      preserves_keeps [OF keeps_store_get_last_date ref_integrity_store]
      preserves_keeps [OF keeps_pure(3) ref_integrity_dim])
  apply (auto split: prod.splits intro!: preserves_and_then preserves_integrity_save_data
      preserves_keeps [OF keeps_dim_basic(3) ref_integrity_dim]
      preserves_keeps [OF keeps_store_fetch ref_integrity_store])
  done

lemma ref_integrity_main: "ref_integrity w \<Longrightarrow> ref_integrity (snd (main env w))"
proof -
  assume u: "ref_integrity w"
  obtain r1 w1 where 1: "startup w = (r1, w1)" by (cases "startup w") auto
  have u1: "ref_integrity w1"
    using ref_integrity_store [OF keepsD [OF keeps_startup 1, of store] u]
    by (simp add: store_simps)
  obtain r2 w2 where 2: "main_try env w1 = (r2, w2)" by (cases "main_try env w1") auto
  have u2: "ref_integrity w2" using preservesD [OF preserves_integrity_main_try u1 2] .
  have u3: "ref_integrity (w2\<lparr>log := l\<rparr>)" for l
    using ref_integrity_dim [OF _ u2, of "w2\<lparr>log := l\<rparr>"] by (simp add: dim_simps)
  show ?thesis using 1 2 u1 u2 u3
    by (auto simp: main_def split: sum.splits)
qed

text \<open>
  C2. After a successful \<open>save_data\<close>, every row of \<open>user_interaction\<close>,
  \<open>content_metrics\<close> and \<open>site_data\<close> refers to a \<open>date_id\<close> that is in
  \<open>dates\<close>, given that the rows that were there before the call did. The rows of the
  call are appended to the three tables, one per record and in the order of the
  records, and the \<open>date_id\<close> of each is the one the dimension holds for the date of
  its record: the resolver has put or found that row of \<open>dates\<close> before the fact row
  was inserted. The condition on the rows that were there before is no restriction on
  the databases the program builds: it holds on the empty database and every run of
  \<open>main\<close> keeps it, however the run ends.
\<close>

theorem save_data_referential_integrity:
  "(ref_integrity w \<and> save_data order data w = (Inr u, w') \<longrightarrow>
      ref_integrity w'
    \<and> (\<exists>pu pc ps.
          user_interaction w' = user_interaction w @ pu
        \<and> content_metrics w' = content_metrics w @ pc
        \<and> site_data w' = site_data w @ ps
        \<and> list_all2 (\<lambda>e r. (date_id r, date e) \<in> set (dates w')) (df_users data) pu
        \<and> list_all2 (\<lambda>e r. (date_id r, date e) \<in> set (dates w')) (df_content data) pc
        \<and> list_all2 (\<lambda>e r. (date_id r, date e) \<in> set (dates w')) (df_site data) ps))
   \<and> (ref_integrity w \<longrightarrow> ref_integrity (snd (main env w)))
   \<and> ref_integrity empty_world"
proof -
  have 1: "ref_integrity w'
    \<and> (\<exists>pu pc ps.
          user_interaction w' = user_interaction w @ pu
        \<and> content_metrics w' = content_metrics w @ pc
        \<and> site_data w' = site_data w @ ps
        \<and> list_all2 (\<lambda>e r. (date_id r, date e) \<in> set (dates w')) (df_users data) pu
        \<and> list_all2 (\<lambda>e r. (date_id r, date e) \<in> set (dates w')) (df_content data) pc
        \<and> list_all2 (\<lambda>e r. (date_id r, date e) \<in> set (dates w')) (df_site data) ps)"
    if inv: "ref_integrity w" and ok: "save_data order data w = (Inr u, w')"
  proof -
    from ok have "save_data_try order data w = (Inr u, w')"
      by (auto simp: save_data_def catch_eq and_then_Inr raise_def)
    then obtain ds m s1 pu pc ps s2 s3 l s4 where
      create: "create_date_entries ds Map.empty w = (Inr m, s1)" and
      insert: "insert_facts m data s1 = (Inr (pu, pc, ps), s2)" and
      commit: "commit_facts (pu, pc, ps) s2 = (Inr (), s3)" and
      logged: "logger l s3 = (Inr (), s4)" and
      export: "export_csv data s4 = (Inr u, w')"
      unfolding save_data_try_def by (auto simp: and_then_Inr lift_def)
    note c = committed_rows [OF inv create insert commit]
    have "dim s4 = dim s3" using keepsD [OF keeps_dim_basic(3) logged] .
    moreover have "dim w' = dim s4" using keepsD [OF keeps_dim_export export] .
    ultimately have d: "dim w' = dim s3" by simp
    then have eqs: "dates w' = dates s3" "user_interaction w' = user_interaction s3"
      "content_metrics w' = content_metrics s3" "site_data w' = site_data s3"
      by (simp_all add: dim_def facts_def)
    have "ref_integrity w'" using ref_integrity_dim [OF d] c by blast
    moreover have "\<exists>pu pc ps.
          user_interaction w' = user_interaction w @ pu
        \<and> content_metrics w' = content_metrics w @ pc
        \<and> site_data w' = site_data w @ ps
        \<and> list_all2 (\<lambda>e r. (date_id r, date e) \<in> set (dates w')) (df_users data) pu
        \<and> list_all2 (\<lambda>e r. (date_id r, date e) \<in> set (dates w')) (df_content data) pc
        \<and> list_all2 (\<lambda>e r. (date_id r, date e) \<in> set (dates w')) (df_site data) ps"
      apply (rule exI [of _ pu], rule exI [of _ pc], rule exI [of _ ps])
      using c eqs by simp
    ultimately show ?thesis by (rule conjI)
  qed
  have 2: "ref_integrity w \<longrightarrow> ref_integrity (snd (main env w))"
    using ref_integrity_main [of w env] by blast
  have 3: "ref_integrity (empty_world :: string world)"
    by (simp add: ref_integrity_def empty_world_def)
  show ?thesis using 1 2 3 by blast
qed

text \<open>
  An instance: the empty database satisfies the invariant, the save of one record per
  category succeeds on it, and so does a whole run.
\<close>

theorem save_data_referential_integrity_witness:
  "ref_integrity empty_world
   \<and> fst (save_data id example_data empty_world) = Inr ()
   \<and> ref_integrity (snd (save_data id example_data empty_world))
   \<and> dates (snd (save_data id example_data empty_world)) = [(1, ''2024-01-01'')]
   \<and> user_interaction (snd (save_data id example_data empty_world))
       = [UserRow 1 100 120 ''0.55'' 5 ''42.3'']
   \<and> ref_integrity (snd (main example_env empty_world))"
proof -
  have inv: "ref_integrity empty_world"
    by (simp add: ref_integrity_def empty_world_def)
  have run: "save_data id example_data empty_world =
    (Inr (), empty_world\<lparr>dates := [(1, ''2024-01-01'')], date_seq := 1,
       user_interaction := [UserRow 1 100 120 ''0.55'' 5 ''42.3''],
       content_metrics := [ContentRow 1 ''Home'' 300 120 ''0.55'' ''42.3''],
       site_data := [SiteRow 1 ''shoes'' 10 200],
       csv_files := [(''site_metrics.csv'', df_site example_data),
                     (''content_metrics.csv'', df_content example_data),
                     (''users_metrics.csv'', df_users example_data)],
       log := [Info_Successfully_saved 1]\<rparr>)"
    by (simp add: run_defs)
  note inst = save_data_referential_integrity
    [where w = empty_world and order = id and data = example_data and u = "()"
      and w' = "snd (save_data id example_data empty_world)" and env = example_env]
  have "ref_integrity (snd (save_data id example_data empty_world))"
    using inst [THEN conjunct1] inv run by simp
  moreover have "ref_integrity (snd (main example_env empty_world))"
    using inst [THEN conjunct2, THEN conjunct1] inv by blast
  ultimately show ?thesis using inv run by simp
qed

subsection \<open>The compact date encoding\<close>

lemma formatted_date_inverse:
  assumes "length s = 8"
  shows "take 4 (formatted_date s) @ take 2 (drop 5 (formatted_date s))
           @ take 2 (drop 8 (formatted_date s)) = s"
proof -
  obtain a b c d e f g h where "s = [a, b, c, d, e, f, g, h]"
    using assms by (auto simp: length_Suc_conv numeral_eq_Suc)
  then show ?thesis by (simp add: formatted_date_def)
qed

text \<open>
  C6. The normalizer turns the compact date \<open>20240315\<close> into exactly \<open>2024-03-15\<close>,
  whatever the category and the metrics of the row. On every string of 8 characters the
  conversion puts the first four, the next two and the last two characters between
  hyphens, and the original is read back from the result, so nothing is lost. The old
  format branch of the parser of \<open>get_last_date\<close> parses \<open>20240315\<close> directly: the
  canonical format fails on it with \<open>ValueError\<close>, the fallback gives 15 March 2024,
  the same day the canonical form of the converted string gives.
\<close>

theorem compact_date_conversion:
  "formatted_date ''20240315'' = ''2024-03-15''
   \<and> (process_row to_int to_float type
         \<lparr>dimension_values = ''20240315'' # ds, metric_values = mv\<rparr> = Inr entry
        \<longrightarrow> date entry = ''2024-03-15'')
   \<and> (length s = 8 \<longrightarrow>
        formatted_date s = take 4 s @ ''-'' @ take 2 (drop 4 s) @ ''-'' @ drop 6 s
        \<and> take 4 (formatted_date s) @ take 2 (drop 5 (formatted_date s))
            @ take 2 (drop 8 (formatted_date s)) = s)
   \<and> strptime_hyphenated ''20240315'' = Inl ValueError
   \<and> strptime_compact ''20240315'' = Inr (Date 2024 3 15)
   \<and> parse_last_date ''20240315'' = Inr (Date 2024 3 15)
   \<and> parse_last_date (formatted_date ''20240315'') = Inr (Date 2024 3 15)"
proof -
  have 1: "formatted_date ''20240315'' = ''2024-03-15''"
    by (simp add: formatted_date_def)
  have 2: "process_row to_int to_float type
         \<lparr>dimension_values = ''20240315'' # ds, metric_values = mv\<rparr> = Inr entry
        \<longrightarrow> date entry = ''2024-03-15''"
    by (cases type) (auto simp: process_row_def on_ok_def index_def formatted_date_def
        split: sum.splits)
  have 3: "length s = 8 \<longrightarrow>
        formatted_date s = take 4 s @ ''-'' @ take 2 (drop 4 s) @ ''-'' @ drop 6 s"
    by (simp add: formatted_date_def)
  have 4: "strptime_hyphenated ''20240315'' = Inl ValueError"
    by (simp add: parse_defs)
  have 5: "strptime_compact ''20240315'' = Inr (Date 2024 3 15)"
    by (simp add: parse_defs)
  have 6: "parse_last_date ''20240315'' = Inr (Date 2024 3 15)"
    using 4 5 by (simp add: parse_last_date_def)
  have 7: "parse_last_date ''2024-03-15'' = Inr (Date 2024 3 15)"
    by (simp add: parse_defs)
  show ?thesis
    using 1 2 3 4 5 6 7 formatted_date_inverse [of s] by simp
qed

text \<open>
  An instance: the string \<open>20240315\<close> has 8 characters, and a site-search row with
  that date is normalized to the date \<open>2024-03-15\<close>.
\<close>

theorem compact_date_conversion_witness:
  "length ''20240315'' = 8
   \<and> process_row digits_int Some Site
        \<lparr>dimension_values = [''20240315'', ''shoes''], metric_values = [''10'', ''200'']\<rparr>
       = Inr (SiteEntry ''2024-03-15'' ''shoes'' 10 200)
   \<and> date (SiteEntry ''2024-03-15'' ''shoes'' 10 200 :: string entry) = ''2024-03-15''
   \<and> take 4 (formatted_date ''20240315'') @ take 2 (drop 5 (formatted_date ''20240315''))
        @ take 2 (drop 8 (formatted_date ''20240315'')) = ''20240315''"
proof -
  have row: "process_row digits_int Some Site
        \<lparr>dimension_values = [''20240315'', ''shoes''], metric_values = [''10'', ''200'']\<rparr>
       = Inr (SiteEntry ''2024-03-15'' ''shoes'' 10 200 :: string entry)"
    by (simp add: process_row_def on_ok_def index_def formatted_date_def convert_def
        digits_int_def is_digit_def digit_val_def)
  show ?thesis
    using row
      compact_date_conversion [of digits_int Some Site "[''shoes'']" "[''10'', ''200'']"
        "SiteEntry ''2024-03-15'' ''shoes'' 10 200 :: string entry" "''20240315''"]
    by simp
qed

end
